theory Spec2Isabelle
  imports Main "HOL-Library.Word"
begin

section \<open>Scanner tokens (package scanner)\<close>

text \<open>
  \<^verbatim>\<open>type Token int\<close>: a token is an integer, and the constants are numbered by
  \<^verbatim>\<open>iota\<close> in the order of the \<^verbatim>\<open>const\<close> block, starting with \<^verbatim>\<open>ILLEGAL = 0\<close>.
  The unexported markers \<^verbatim>\<open>literalEnd\<close>, \<^verbatim>\<open>operatorBeg\<close>, \<^verbatim>\<open>operatorEnd\<close>,
  \<^verbatim>\<open>keywordBeg\<close> and \<^verbatim>\<open>keywordEnd\<close> take a number like every other line.
\<close>

type_synonym Token = int

definition ILLEGAL :: Token where "ILLEGAL = 0"
definition EOF :: Token where "EOF = 1"
definition WS :: Token where "WS = 2"
definition COMMENT :: Token where "COMMENT = 3"
definition IDENT :: Token where "IDENT = 4"
definition NAMEDPARAM :: Token where "NAMEDPARAM = 5"
definition POSITIONALPARAM :: Token where "POSITIONALPARAM = 6"
definition NUMBER :: Token where "NUMBER = 7"
definition INTEGER :: Token where "INTEGER = 8"
definition STRING :: Token where "STRING = 9"
definition BADSTRING :: Token where "BADSTRING = 10"
definition BADESCAPE :: Token where "BADESCAPE = 11"
definition TRUE :: Token where "TRUE = 12"
definition FALSE :: Token where "FALSE = 13"
definition NULL :: Token where "NULL = 14"
definition REGEX :: Token where "REGEX = 15"
definition BADREGEX :: Token where "BADREGEX = 16"
definition literalEnd :: Token where "literalEnd = 17"
definition operatorBeg :: Token where "operatorBeg = 18"
definition ADD :: Token where "ADD = 19"
definition SUB :: Token where "SUB = 20"
definition MUL :: Token where "MUL = 21"
definition DIV :: Token where "DIV = 22"
definition MOD :: Token where "MOD = 23"
definition BITWISEAND :: Token where "BITWISEAND = 24"
definition BITWISEOR :: Token where "BITWISEOR = 25"
definition BITWISEXOR :: Token where "BITWISEXOR = 26"
definition BETWEEN :: Token where "BETWEEN = 27"
definition AND :: Token where "AND = 28"
definition OR :: Token where "OR = 29"
definition EQ :: Token where "EQ = 30"
definition NEQ :: Token where "NEQ = 31"
definition EQREGEX :: Token where "EQREGEX = 32"
definition NEQREGEX :: Token where "NEQREGEX = 33"
definition LT :: Token where "LT = 34"
definition LTE :: Token where "LTE = 35"
definition GT :: Token where "GT = 36"
definition GTE :: Token where "GTE = 37"
definition IN :: Token where "IN = 38"
definition NIN :: Token where "NIN = 39"
definition IS :: Token where "IS = 40"
definition ISN :: Token where "ISN = 41"
definition LIKE :: Token where "LIKE = 42"
definition CONCAT :: Token where "CONCAT = 43"
definition operatorEnd :: Token where "operatorEnd = 44"
definition LPAREN :: Token where "LPAREN = 45"
definition RPAREN :: Token where "RPAREN = 46"
definition LBRACKET :: Token where "LBRACKET = 47"
definition RBRACKET :: Token where "RBRACKET = 48"
definition LSBRACKET :: Token where "LSBRACKET = 49"
definition RSBRACKET :: Token where "RSBRACKET = 50"
definition COMMA :: Token where "COMMA = 51"
definition COLON :: Token where "COLON = 52"
definition DOUBLECOLON :: Token where "DOUBLECOLON = 53"
definition SEMICOLON :: Token where "SEMICOLON = 54"
definition DOT :: Token where "DOT = 55"
definition keywordBeg :: Token where "keywordBeg = 56"
definition ADD_KEYWORD :: Token where "ADD_KEYWORD = 57"
definition ALTER :: Token where "ALTER = 58"
definition AS :: Token where "AS = 59"
definition ASC :: Token where "ASC = 60"
definition BEGIN :: Token where "BEGIN = 61"
definition BY :: Token where "BY = 62"
definition CAST :: Token where "CAST = 63"
definition COMMIT :: Token where "COMMIT = 64"
definition CREATE :: Token where "CREATE = 65"
definition DEFAULT :: Token where "DEFAULT = 66"
definition DELETE :: Token where "DELETE = 67"
definition DESC :: Token where "DESC = 68"
definition DISTINCT :: Token where "DISTINCT = 69"
definition DROP :: Token where "DROP = 70"
definition EXISTS :: Token where "EXISTS = 71"
definition EXPLAIN :: Token where "EXPLAIN = 72"
definition FIELD :: Token where "FIELD = 73"
definition FROM :: Token where "FROM = 74"
definition GROUP :: Token where "GROUP = 75"
definition IF :: Token where "IF = 76"
definition INDEX :: Token where "INDEX = 77"
definition INSERT :: Token where "INSERT = 78"
definition INTO :: Token where "INTO = 79"
definition KEY :: Token where "KEY = 80"
definition LIMIT :: Token where "LIMIT = 81"
definition NOT :: Token where "NOT = 82"
definition OFFSET :: Token where "OFFSET = 83"
definition ON :: Token where "ON = 84"
definition ONLY :: Token where "ONLY = 85"
definition ORDER :: Token where "ORDER = 86"
definition PRECISION :: Token where "PRECISION = 87"
definition PRIMARY :: Token where "PRIMARY = 88"
definition READ :: Token where "READ = 89"
definition REINDEX :: Token where "REINDEX = 90"
definition RENAME :: Token where "RENAME = 91"
definition RETURNING :: Token where "RETURNING = 92"
definition ROLLBACK :: Token where "ROLLBACK = 93"
definition SELECT :: Token where "SELECT = 94"
definition SET :: Token where "SET = 95"
definition TABLE :: Token where "TABLE = 96"
definition TO :: Token where "TO = 97"
definition TRANSACTION :: Token where "TRANSACTION = 98"
definition UNIQUE :: Token where "UNIQUE = 99"
definition UNSET :: Token where "UNSET = 100"
definition UPDATE :: Token where "UPDATE = 101"
definition VALUES :: Token where "VALUES = 102"
definition WHERE :: Token where "WHERE = 103"
definition WRITE :: Token where "WRITE = 104"
definition TYPEARRAY :: Token where "TYPEARRAY = 105"
definition TYPEBIGINT :: Token where "TYPEBIGINT = 106"
definition TYPEBLOB :: Token where "TYPEBLOB = 107"
definition TYPEBOOL :: Token where "TYPEBOOL = 108"
definition TYPEBYTES :: Token where "TYPEBYTES = 109"
definition TYPECHARACTER :: Token where "TYPECHARACTER = 110"
definition TYPEDOCUMENT :: Token where "TYPEDOCUMENT = 111"
definition TYPEDOUBLE :: Token where "TYPEDOUBLE = 112"
definition TYPEINT :: Token where "TYPEINT = 113"
definition TYPEINT2 :: Token where "TYPEINT2 = 114"
definition TYPEINT8 :: Token where "TYPEINT8 = 115"
definition TYPEINTEGER :: Token where "TYPEINTEGER = 116"
definition TYPEMEDIUMINT :: Token where "TYPEMEDIUMINT = 117"
definition TYPESMALLINT :: Token where "TYPESMALLINT = 118"
definition TYPETEXT :: Token where "TYPETEXT = 119"
definition TYPETINYINT :: Token where "TYPETINYINT = 120"
definition TYPEREAL :: Token where "TYPEREAL = 121"
definition TYPEVARCHAR :: Token where "TYPEVARCHAR = 122"
definition keywordEnd :: Token where "keywordEnd = 123"

lemmas operator_token_defs =
  operatorBeg_def ADD_def SUB_def MUL_def DIV_def MOD_def BITWISEAND_def BITWISEOR_def
  BITWISEXOR_def BETWEEN_def AND_def OR_def EQ_def NEQ_def EQREGEX_def NEQREGEX_def
  LT_def LTE_def GT_def GTE_def IN_def NIN_def IS_def ISN_def LIKE_def CONCAT_def
  operatorEnd_def

text \<open>
  \<^verbatim>\<open>func (tok Token) Precedence() int\<close>: a \<^verbatim>\<open>switch\<close> on the token, the cases tried
  in the order of the source, and \<^verbatim>\<open>return 0\<close> after it.
\<close>

definition Precedence :: "Token \<Rightarrow> int" where
  "Precedence tok =
     (if tok = OR then 1
      else if tok = AND then 2
      else if tok \<in> set [EQ, NEQ, IS, IN, LIKE, EQREGEX, NEQREGEX, BETWEEN] then 3
      else if tok \<in> set [LT, LTE, GT, GTE] then 4
      else if tok \<in> set [BITWISEOR, BITWISEXOR, BITWISEAND] then 5
      else if tok \<in> set [ADD, SUB] then 6
      else if tok \<in> set [MUL, DIV, MOD] then 7
      else if tok = CONCAT then 8
      else 0)"

text \<open>\<^verbatim>\<open>func (tok Token) IsOperator() bool { return tok > operatorBeg && tok < operatorEnd }\<close>\<close>

definition IsOperator :: "Token \<Rightarrow> bool" where
  "IsOperator tok \<longleftrightarrow> tok > operatorBeg \<and> tok < operatorEnd"

text \<open>
  \<^verbatim>\<open>var tokens = [...]string{...}\<close>: an array indexed by token, as long as its largest
  index requires (\<^verbatim>\<open>TYPEVARCHAR\<close>), holding the empty string at every index the
  literal leaves out.
\<close>

definition tokens_entries :: "(Token \<times> string) list" where
  "tokens_entries = [
    (ILLEGAL, ''ILLEGAL''), (EOF, ''EOF''), (WS, ''WS''), (IDENT, ''IDENT''),
    (POSITIONALPARAM, ''?''), (NUMBER, ''NUMBER''), (STRING, ''STRING''),
    (BADSTRING, ''BADSTRING''), (BADESCAPE, ''BADESCAPE''), (TRUE, ''TRUE''),
    (FALSE, ''FALSE''), (REGEX, ''REGEX''), (NULL, ''NULL''), (ADD, ''+''), (SUB, ''-''),
    (MUL, ''*''), (DIV, ''/''), (MOD, ''%''), (BITWISEAND, ''&''), (BITWISEOR, ''|''),
    (BITWISEXOR, ''^''), (BETWEEN, ''BETWEEN''), (AND, ''AND''), (OR, ''OR''), (EQ, ''=''),
    (NEQ, ''!=''), (EQREGEX, ''=~''), (NEQREGEX, ''!~''), (LT, ''<''), (LTE, ''<=''),
    (GT, ''>''), (GTE, ''>=''), (IN, ''IN''), (IS, ''IS''), (LIKE, ''LIKE''),
    (LPAREN, ''(''), (RPAREN, '')''), (LBRACKET, ''{''), (RBRACKET, ''}''),
    (LSBRACKET, ''[''), (RSBRACKET, '']''), (COMMA, '',''), (COLON, '':''),
    (DOUBLECOLON, ''::''), (SEMICOLON, '';''), (DOT, ''.''), (ADD_KEYWORD, ''ADD''),
    (ALTER, ''ALTER''), (AS, ''AS''), (ASC, ''ASC''), (BEGIN, ''BEGIN''),
    (COMMIT, ''COMMIT''), (GROUP, ''GROUP''), (BY, ''BY''), (CREATE, ''CREATE''),
    (CAST, ''CAST''), (DEFAULT, ''DEFAULT''), (DELETE, ''DELETE''), (DESC, ''DESC''),
    (DISTINCT, ''DISTINCT''), (DROP, ''DROP''), (EXISTS, ''EXISTS''),
    (EXPLAIN, ''EXPLAIN''), (KEY, ''KEY''), (FIELD, ''FIELD''), (FROM, ''FROM''),
    (IF, ''IF''), (INDEX, ''INDEX''), (INSERT, ''INSERT''), (INTO, ''INTO''),
    (LIMIT, ''LIMIT''), (NOT, ''NOT''), (OFFSET, ''OFFSET''), (ON, ''ON''),
    (ONLY, ''ONLY''), (ORDER, ''ORDER''), (PRECISION, ''PRECISION''),
    (PRIMARY, ''PRIMARY''), (READ, ''READ''), (REINDEX, ''REINDEX''), (RENAME, ''RENAME''),
    (RETURNING, ''RETURNING''), (ROLLBACK, ''ROLLBACK''), (SELECT, ''SELECT''),
    (SET, ''SET''), (TABLE, ''TABLE''), (TO, ''TO''), (TRANSACTION, ''TRANSACTION''),
    (UNIQUE, ''UNIQUE''), (UNSET, ''UNSET''), (UPDATE, ''UPDATE''), (VALUES, ''VALUES''),
    (WHERE, ''WHERE''), (WRITE, ''WRITE''), (TYPEARRAY, ''ARRAY''),
    (TYPEBIGINT, ''BIGINT''), (TYPEBLOB, ''BLOB''), (TYPEBOOL, ''BOOL''),
    (TYPEBYTES, ''BYTES''), (TYPECHARACTER, ''CHARACTER''), (TYPEDOCUMENT, ''DOCUMENT''),
    (TYPEDOUBLE, ''DOUBLE''), (TYPEINT, ''INT''), (TYPEINT2, ''INT2''),
    (TYPEINT8, ''INT8''), (TYPEINTEGER, ''INTEGER''), (TYPEMEDIUMINT, ''MEDIUMINT''),
    (TYPESMALLINT, ''SMALLINT''), (TYPETEXT, ''TEXT''), (TYPETINYINT, ''TINYINT''),
    (TYPEREAL, ''REAL''), (TYPEVARCHAR, ''VARCHAR'')]"

definition tokens_len :: int where
  "tokens_len = TYPEVARCHAR + 1"

definition tokens :: "Token \<Rightarrow> string" where
  "tokens tok = (case map_of tokens_entries tok of Some s \<Rightarrow> s | None \<Rightarrow> [])"

text \<open>\<^verbatim>\<open>func (tok Token) String() string\<close>\<close>

definition Token_String :: "Token \<Rightarrow> string" where
  "Token_String tok = (if tok \<ge> 0 \<and> tok < tokens_len then tokens tok else [])"

text \<open>\<^verbatim>\<open>func Tokstr(tok Token, lit string) string\<close>\<close>

definition Tokstr :: "Token \<Rightarrow> string \<Rightarrow> string" where
  "Tokstr tok lit = (if lit \<noteq> [] then lit else Token_String tok)"

section \<open>Operator precedence\<close>

lemma Precedence_cases:
  "Precedence tok \<noteq> 0 \<Longrightarrow>
     tok \<in> set [OR, AND, EQ, NEQ, IS, IN, LIKE, EQREGEX, NEQREGEX, BETWEEN, LT, LTE, GT, GTE,
       BITWISEOR, BITWISEXOR, BITWISEAND, ADD, SUB, MUL, DIV, MOD, CONCAT]"
  unfolding Precedence_def by (auto split: if_splits)

lemma Precedence_nonzero_IsOperator: "Precedence tok \<noteq> 0 \<Longrightarrow> IsOperator tok"
  using Precedence_cases [of tok]
  unfolding IsOperator_def operator_token_defs by auto

text \<open>
  Claim C8. The precedence function gives the levels of the specification's table:
  \<^verbatim>\<open>OR\<close> is 1; \<^verbatim>\<open>AND\<close> is 2; \<^verbatim>\<open>=\<close>, \<^verbatim>\<open>!=\<close>, \<^verbatim>\<open>IS\<close>, \<^verbatim>\<open>IN\<close>, \<^verbatim>\<open>LIKE\<close>, \<^verbatim>\<open>=~\<close>,
  \<^verbatim>\<open>!~\<close>, \<^verbatim>\<open>BETWEEN\<close> are 3; \<^verbatim>\<open><\<close>, \<^verbatim>\<open><=\<close>, \<^verbatim>\<open>>\<close>, \<^verbatim>\<open>>=\<close> are 4; \<^verbatim>\<open>|\<close>, \<^verbatim>\<open>^\<close>, \<^verbatim>\<open>&\<close>
  are 5; \<^verbatim>\<open>+\<close> and \<^verbatim>\<open>-\<close> are 6; \<^verbatim>\<open>*\<close>, \<^verbatim>\<open>/\<close>, \<^verbatim>\<open>%\<close> are 7; the concatenation
  operator is 8; and every token that is not an operator token (every integer outside
  the open interval between \<^verbatim>\<open>operatorBeg\<close> and \<^verbatim>\<open>operatorEnd\<close>) has precedence 0.
\<close>

theorem C8_Precedence_levels:
  "Precedence OR = 1 \<and> Precedence AND = 2
   \<and> Precedence EQ = 3 \<and> Precedence NEQ = 3 \<and> Precedence IS = 3 \<and> Precedence IN = 3
   \<and> Precedence LIKE = 3 \<and> Precedence EQREGEX = 3 \<and> Precedence NEQREGEX = 3
   \<and> Precedence BETWEEN = 3
   \<and> Precedence LT = 4 \<and> Precedence LTE = 4 \<and> Precedence GT = 4 \<and> Precedence GTE = 4
   \<and> Precedence BITWISEOR = 5 \<and> Precedence BITWISEXOR = 5 \<and> Precedence BITWISEAND = 5
   \<and> Precedence ADD = 6 \<and> Precedence SUB = 6
   \<and> Precedence MUL = 7 \<and> Precedence DIV = 7 \<and> Precedence MOD = 7
   \<and> Precedence CONCAT = 8
   \<and> (\<forall>tok. \<not> IsOperator tok \<longrightarrow> Precedence tok = 0)"
proof -
  have levels: "Precedence OR = 1 \<and> Precedence AND = 2
   \<and> Precedence EQ = 3 \<and> Precedence NEQ = 3 \<and> Precedence IS = 3 \<and> Precedence IN = 3
   \<and> Precedence LIKE = 3 \<and> Precedence EQREGEX = 3 \<and> Precedence NEQREGEX = 3
   \<and> Precedence BETWEEN = 3
   \<and> Precedence LT = 4 \<and> Precedence LTE = 4 \<and> Precedence GT = 4 \<and> Precedence GTE = 4
   \<and> Precedence BITWISEOR = 5 \<and> Precedence BITWISEXOR = 5 \<and> Precedence BITWISEAND = 5
   \<and> Precedence ADD = 6 \<and> Precedence SUB = 6
   \<and> Precedence MUL = 7 \<and> Precedence DIV = 7 \<and> Precedence MOD = 7
   \<and> Precedence CONCAT = 8"
    unfolding Precedence_def operator_token_defs by simp
  have rest: "\<forall>tok. \<not> IsOperator tok \<longrightarrow> Precedence tok = 0"
    using Precedence_nonzero_IsOperator by blast
  from levels rest show ?thesis by blast
qed

theorem C8_Precedence_levels_witness:
  "\<not> IsOperator LPAREN \<and> Precedence LPAREN = 0 \<and> \<not> IsOperator 1000 \<and> Precedence 1000 = 0"
proof -
  have a: "\<not> IsOperator LPAREN" and b: "\<not> IsOperator 1000"
    unfolding IsOperator_def LPAREN_def operatorBeg_def operatorEnd_def by simp_all
  from C8_Precedence_levels a b show ?thesis by blast
qed


section \<open>The parser (package genji)\<close>

text \<open>\<^verbatim>\<open>type Pos struct { Line int; Char int }\<close>\<close>

record Pos =
  Line :: int
  Char :: int

text \<open>A scanned token as \<^verbatim>\<open>Scan\<close> returns it: \<^verbatim>\<open>(tok Token, pos Pos, lit string)\<close>.\<close>

type_synonym TokItem = "Token \<times> Pos \<times> string"

text \<open>
  Modelled from the spec: the type \<^verbatim>\<open>ParseError\<close> and \<^verbatim>\<open>newParseError\<close> are not under
  src/. "Parse errors carry the unexpected token text, the list of expected token strings,
  and a position"; the field \<^verbatim>\<open>Message\<close> is the one the source sets in
  \<^verbatim>\<open>&ParseError{Message: ...}\<close>.
\<close>

record ParseError =
  Message :: string
  Found :: string
  Expected :: "string list"
  ErrPos :: Pos

definition newParseError :: "string \<Rightarrow> string list \<Rightarrow> Pos \<Rightarrow> ParseError" where
  "newParseError found expected pos =
     \<lparr>Message = [], Found = found, Expected = expected, ErrPos = pos\<rparr>"

text \<open>
  Modelled from the spec: the type \<^verbatim>\<open>parser\<close> with \<^verbatim>\<open>Scan\<close>, \<^verbatim>\<open>Unscan\<close>,
  \<^verbatim>\<open>ScanIgnoreWhitespace\<close>, \<^verbatim>\<open>ParseIdent\<close> and \<^verbatim>\<open>ParseIdentList\<close> is not under src/.
  "The parser is recursive-descent with a single lookahead (an Unscan one-token
  push-back)", implemented "as an explicit buffered token slot"; whitespace and comments
  are skipped. The scanner's output is the list \<open>input\<close>; past its end every scan
  returns \<^verbatim>\<open>EOF\<close>.
\<close>

record parser =
  buffered :: "TokItem option"
  lastTok :: TokItem
  input :: "TokItem list"

definition eofItem :: TokItem where
  "eofItem = (EOF, \<lparr>Line = 0, Char = 0\<rparr>, [])"

definition newParser :: "TokItem list \<Rightarrow> parser" where
  "newParser ts = \<lparr>buffered = None, lastTok = eofItem, input = ts\<rparr>"

definition Scan :: "parser \<Rightarrow> TokItem \<times> parser" where
  "Scan p =
     (case buffered p of
        Some x \<Rightarrow> (x, p\<lparr>buffered := None, lastTok := x\<rparr>)
      | None \<Rightarrow>
          (case input p of
             [] \<Rightarrow> (eofItem, p\<lparr>lastTok := eofItem\<rparr>)
           | x # xs \<Rightarrow> (x, p\<lparr>lastTok := x, input := xs\<rparr>)))"

definition Unscan :: "parser \<Rightarrow> parser" where
  "Unscan p = p\<lparr>buffered := Some (lastTok p)\<rparr>"

text \<open>What is still to be read: the pushed-back token, then the rest of the input.\<close>

definition pending :: "parser \<Rightarrow> TokItem list" where
  "pending p = (case buffered p of None \<Rightarrow> input p | Some x \<Rightarrow> x # input p)"

lemma Scan_pending_less:
  "Scan p = (it, p') \<Longrightarrow> fst it \<noteq> EOF \<Longrightarrow> length (pending p') < length (pending p)"
  by (auto simp: Scan_def pending_def eofItem_def split: option.splits list.splits)

function ScanIgnoreWhitespace :: "parser \<Rightarrow> TokItem \<times> parser" where
  "ScanIgnoreWhitespace p =
     (let (it, p') = Scan p
      in if fst it = WS \<or> fst it = COMMENT then ScanIgnoreWhitespace p' else (it, p'))"
  by pat_completeness auto
termination
proof (relation "measure (\<lambda>p. length (pending p))")
  show "wf (measure (\<lambda>p. length (pending p)))" by simp
next
  fix p :: parser and x :: "TokItem \<times> parser" and it :: TokItem and p' :: parser
  assume "x = Scan p" and "(it, p') = x" and ws: "fst it = WS \<or> fst it = COMMENT"
  then have s: "Scan p = (it, p')" by simp
  from ws have "fst it \<noteq> EOF" by (auto simp: WS_def COMMENT_def EOF_def)
  with s have "length (pending p') < length (pending p)" by (rule Scan_pending_less)
  then show "(p', p) \<in> measure (\<lambda>p. length (pending p))" by simp
qed

declare ScanIgnoreWhitespace.simps [simp del]

definition ParseIdent :: "parser \<Rightarrow> (ParseError + string) \<times> parser" where
  "ParseIdent p =
     (let ((tok, pos, lit), p1) = ScanIgnoreWhitespace p
      in if tok \<noteq> IDENT then (Inl (newParseError (Tokstr tok lit) [''identifier''] pos), p1)
         else (Inr lit, p1))"

lemma Scan_pending_le: "Scan p = (it, p') \<Longrightarrow> length (pending p') \<le> length (pending p)"
  by (auto simp: Scan_def pending_def split: option.splits list.splits)

lemma ScanIgnoreWhitespace_pending_le:
  "ScanIgnoreWhitespace p = (it, p') \<Longrightarrow> length (pending p') \<le> length (pending p)"
proof (induction p rule: ScanIgnoreWhitespace.induct)
  case (1 p)
  obtain it1 p1 where s: "Scan p = (it1, p1)" by (cases "Scan p")
  show ?case
  proof (cases "fst it1 = WS \<or> fst it1 = COMMENT")
    case True
    with s "1.prems" have "ScanIgnoreWhitespace p1 = (it, p')"
      by (simp add: ScanIgnoreWhitespace.simps [of p])
    with "1.IH" [OF s [symmetric] refl True] have "length (pending p') \<le> length (pending p1)"
      by simp
    with Scan_pending_le [OF s] show ?thesis by simp
  next
    case False
    with s "1.prems" have "it = it1" "p' = p1"
      by (simp_all add: ScanIgnoreWhitespace.simps [of p])
    with Scan_pending_le [OF s] show ?thesis by simp
  qed
qed

lemma ScanIgnoreWhitespace_pending_less:
  "ScanIgnoreWhitespace p = (it, p') \<Longrightarrow> fst it \<noteq> EOF \<Longrightarrow>
     length (pending p') < length (pending p)"
proof (induction p rule: ScanIgnoreWhitespace.induct)
  case (1 p)
  obtain it1 p1 where s: "Scan p = (it1, p1)" by (cases "Scan p")
  show ?case
  proof (cases "fst it1 = WS \<or> fst it1 = COMMENT")
    case True
    with s "1.prems" have "ScanIgnoreWhitespace p1 = (it, p')"
      by (simp add: ScanIgnoreWhitespace.simps [of p])
    with "1.IH" [OF s [symmetric] refl True] "1.prems"
    have "length (pending p') < length (pending p1)" by simp
    with Scan_pending_le [OF s] show ?thesis by simp
  next
    case False
    with s "1.prems" have "it = it1" "p' = p1"
      by (simp_all add: ScanIgnoreWhitespace.simps [of p])
    with Scan_pending_less [OF s] "1.prems" show ?thesis by simp
  qed
qed

lemma ParseIdent_pending_le:
  "ParseIdent p = (r, p') \<Longrightarrow> length (pending p') \<le> length (pending p)"
  by (auto simp: ParseIdent_def split: prod.splits if_splits
      dest: ScanIgnoreWhitespace_pending_le)

text \<open>
  \<^verbatim>\<open>ParseIdentList\<close>: the first identifier is required; then, as long as a comma
  follows, another identifier. The token that is not a comma is pushed back.
\<close>

function ParseIdentList_loop :: "parser \<Rightarrow> string list \<Rightarrow> (ParseError + string list) \<times> parser" where
  "ParseIdentList_loop p idents =
     (case ScanIgnoreWhitespace p of
        ((tok, pos, lit), p1) \<Rightarrow>
          if tok \<noteq> COMMA then (Inr idents, Unscan p1)
          else (case ParseIdent p1 of
                  (Inl err, p2) \<Rightarrow> (Inl err, p2)
                | (Inr ident, p2) \<Rightarrow> ParseIdentList_loop p2 (idents @ [ident])))"
  by pat_completeness auto
termination
proof (relation "measure (\<lambda>(p, idents). length (pending p))")
  show "wf (measure (\<lambda>(p, idents). length (pending p)))" by simp
next
  fix p p1 p2 :: parser and idents :: "string list" and it :: TokItem and tok :: Token
    and rest :: "Pos \<times> string" and r :: "ParseError + string" and ident :: string
  assume "(it, p1) = ScanIgnoreWhitespace p" and "(tok, rest) = it" and "\<not> tok \<noteq> COMMA"
    and "(r, p2) = ParseIdent p1"
  then have s: "ScanIgnoreWhitespace p = (it, p1)" and t: "fst it \<noteq> EOF"
    and q: "ParseIdent p1 = (r, p2)"
    by (auto simp: COMMA_def EOF_def)
  from ScanIgnoreWhitespace_pending_less [OF s t] ParseIdent_pending_le [OF q]
  show "((p2, idents @ [ident]), (p, idents)) \<in> measure (\<lambda>(p, idents). length (pending p))"
    by simp
qed

declare ParseIdentList_loop.simps [simp del]

definition ParseIdentList :: "parser \<Rightarrow> (ParseError + string list) \<times> parser" where
  "ParseIdentList p =
     (case ParseIdent p of
        (Inl err, p1) \<Rightarrow> (Inl err, p1)
      | (Inr ident, p1) \<Rightarrow> ParseIdentList_loop p1 [ident])"

subsection \<open>\<^verbatim>\<open>parseFieldList\<close> and \<^verbatim>\<open>parseCreateIndexStatement\<close>\<close>

text \<open>
  \<^verbatim>\<open>parseFieldList\<close> returns \<^verbatim>\<open>([]string, bool, error)\<close>; the \<^verbatim>\<open>nil\<close> slice is the
  empty list and the \<^verbatim>\<open>nil\<close> error is \<open>None\<close>.
\<close>

definition parseFieldList :: "parser \<Rightarrow> (string list \<times> bool \<times> ParseError option) \<times> parser" where
  "parseFieldList p =
     (let ((tok, pos, lit), p1) = ScanIgnoreWhitespace p
      in if tok \<noteq> LPAREN then (([], False, None), Unscan p1)
         else (case ParseIdentList p1 of
                 (Inl err, p2) \<Rightarrow> (([], False, Some err), p2)
               | (Inr idents, p2) \<Rightarrow>
                   (let ((tok, pos, lit), p3) = ScanIgnoreWhitespace p2
                    in if tok \<noteq> RPAREN
                       then (([], False, Some (newParseError (Tokstr tok lit) ['')''] pos)), p3)
                       else ((idents, True, None), p3))))"

text \<open>
  The statement built by \<^verbatim>\<open>parseCreateIndexStatement\<close>; its type declaration is not
  under src/, the fields are the ones the function assigns.
\<close>

record createIndexStmt =
  indexName :: string
  tableName :: string
  fieldName :: string
  ifNotExists :: bool
  unique :: bool

definition emptyCreateIndexStmt :: createIndexStmt where
  "emptyCreateIndexStmt =
     \<lparr>indexName = [], tableName = [], fieldName = [], ifNotExists = False, unique = False\<rparr>"

text \<open>
  The part of \<^verbatim>\<open>parseCreateIndexStatement\<close> after the optional \<^verbatim>\<open>IF NOT EXISTS\<close>:
  the index name, \<^verbatim>\<open>ON\<close>, the table name, the field list and the check of its length.
  It returns the statement as far as it was filled and the error (\<open>None\<close> for \<^verbatim>\<open>nil\<close>).
\<close>

definition parseCreateIndexStatement_rest ::
  "createIndexStmt \<Rightarrow> parser \<Rightarrow> (createIndexStmt \<times> ParseError option) \<times> parser" where
  "parseCreateIndexStatement_rest stmt p =
     (case ParseIdent p of
        (Inl err, p1) \<Rightarrow> ((stmt\<lparr>indexName := []\<rparr>, Some err), p1)
      | (Inr name, p1) \<Rightarrow>
          (let stmt = stmt\<lparr>indexName := name\<rparr>;
               ((tok, pos, lit), p2) = ScanIgnoreWhitespace p1
           in if tok \<noteq> ON then ((stmt, Some (newParseError (Tokstr tok lit) [''ON''] pos)), p2)
              else (case ParseIdent p2 of
                      (Inl err, p3) \<Rightarrow> ((stmt\<lparr>tableName := []\<rparr>, Some err), p3)
                    | (Inr tname, p3) \<Rightarrow>
                        (let stmt = stmt\<lparr>tableName := tname\<rparr>;
                             ((flds, ok, err), p4) = parseFieldList p3
                         in if err \<noteq> None then ((stmt, err), p4)
                            else if \<not> ok then
                              (let ((tok, pos, lit), p5) = ScanIgnoreWhitespace p4
                               in ((stmt, Some (newParseError (Tokstr tok lit) [''(''] pos)), p5))
                            else if length flds \<noteq> 1 then
                              ((stmt, Some \<lparr>Message = ''indexes on more than one field not supported'',
                                  Found = [], Expected = [], ErrPos = \<lparr>Line = 0, Char = 0\<rparr>\<rparr>), p4)
                            else ((stmt\<lparr>fieldName := flds ! 0\<rparr>, None), p4)))))"

definition parseCreateIndexStatement ::
  "bool \<Rightarrow> parser \<Rightarrow> (createIndexStmt \<times> ParseError option) \<times> parser" where
  "parseCreateIndexStatement uniq p =
     (let stmt = emptyCreateIndexStmt\<lparr>unique := uniq\<rparr>;
          ((tok, pos, lit), p1) = ScanIgnoreWhitespace p
      in if tok = IF then
           (let ((tok, pos, lit), p2) = ScanIgnoreWhitespace p1
            in if tok \<noteq> NOT
               then ((stmt, Some (newParseError (Tokstr tok lit) [''NOT'', ''EXISTS''] pos)), p2)
               else (let ((tok, pos, lit), p3) = ScanIgnoreWhitespace p2
                     in if tok \<noteq> EXISTS
                        then ((stmt, Some (newParseError (Tokstr tok lit) [''EXISTS''] pos)), p3)
                        else parseCreateIndexStatement_rest (stmt\<lparr>ifNotExists := True\<rparr>) p3))
         else parseCreateIndexStatement_rest stmt (Unscan p1))"

subsection \<open>Statements as token sequences\<close>

definition significant :: "TokItem \<Rightarrow> bool" where
  "significant it \<longleftrightarrow> fst it \<noteq> WS \<and> fst it \<noteq> COMMENT"

definition key :: "TokItem \<Rightarrow> Token \<times> string" where
  "key it = (case it of (t, pos, lit) \<Rightarrow> (t, if t = IDENT then lit else []))"

definition sig :: "TokItem list \<Rightarrow> (Token \<times> string) list" where
  "sig ts = map key (filter significant ts)"

definition kw :: "Token \<Rightarrow> Token \<times> string" where
  "kw t = (t, [])"

definition ident :: "string \<Rightarrow> Token \<times> string" where
  "ident s = (IDENT, s)"

definition moreIdents :: "string list \<Rightarrow> (Token \<times> string) list" where
  "moreIdents fs = concat (map (\<lambda>f. [kw COMMA, ident f]) fs)"

definition createIndexTokens :: "bool \<Rightarrow> string \<Rightarrow> string \<Rightarrow> string \<Rightarrow> string list \<Rightarrow> (Token \<times> string) list" where
  "createIndexTokens ifne idx tbl f fs =
     (if ifne then [kw IF, kw NOT, kw EXISTS] else [])
     @ [ident idx, kw ON, ident tbl, kw LPAREN, ident f] @ moreIdents fs @ [kw RPAREN]"

lemma Scan_facts:
  "Scan p = (it, p') \<Longrightarrow>
     buffered p' = None \<and> lastTok p' = it \<and>
     (case pending p of [] \<Rightarrow> it = eofItem \<and> pending p' = [] | x # xs \<Rightarrow> it = x \<and> pending p' = xs)"
  by (auto simp: Scan_def pending_def split: option.splits list.splits)

lemma significant_eofItem: "significant eofItem"
  by (simp add: significant_def eofItem_def EOF_def WS_def COMMENT_def)

lemma ScanIgnoreWhitespace_facts:
  "ScanIgnoreWhitespace p = (it, p') \<Longrightarrow>
     significant it \<and> buffered p' = None \<and> lastTok p' = it \<and>
     (case filter significant (pending p) of
        [] \<Rightarrow> it = eofItem \<and> filter significant (pending p') = []
      | x # xs \<Rightarrow> it = x \<and> filter significant (pending p') = xs)"
proof (induction p rule: ScanIgnoreWhitespace.induct)
  case (1 p)
  obtain it1 p1 where s: "Scan p = (it1, p1)" by (cases "Scan p")
  note f = Scan_facts [OF s]
  show ?case
  proof (cases "fst it1 = WS \<or> fst it1 = COMMENT")
    case True
    with s "1.prems" have r: "ScanIgnoreWhitespace p1 = (it, p')"
      by (simp add: ScanIgnoreWhitespace.simps [of p])
    note ih = "1.IH" [OF s [symmetric] refl True r]
    from True have ns: "\<not> significant it1" by (auto simp: significant_def)
    have "pending p \<noteq> []"
    proof
      assume "pending p = []"
      with f have "it1 = eofItem" by simp
      with ns significant_eofItem show False by simp
    qed
    then obtain x xs where px: "pending p = x # xs" by (cases "pending p") auto
    with f have "it1 = x" "pending p1 = xs" by simp_all
    with ns px have "filter significant (pending p) = filter significant (pending p1)" by simp
    with ih show ?thesis by simp
  next
    case False
    with s "1.prems" have e: "it = it1" "p' = p1"
      by (simp_all add: ScanIgnoreWhitespace.simps [of p])
    from False have sg: "significant it1" by (auto simp: significant_def)
    show ?thesis
    proof (cases "pending p")
      case Nil
      with f e sg show ?thesis by simp
    next
      case (Cons x xs)
      with f e sg show ?thesis by simp
    qed
  qed
qed

lemma ScanIgnoreWhitespace_sig:
  assumes "sig (pending p) = (t, l) # xs"
  obtains pos lit p' where "ScanIgnoreWhitespace p = ((t, pos, lit), p')"
    and "t = IDENT \<Longrightarrow> lit = l" and "sig (pending p') = xs"
    and "sig (pending (Unscan p')) = (t, l) # xs"
proof -
  obtain it p' where s: "ScanIgnoreWhitespace p = (it, p')" by (cases "ScanIgnoreWhitespace p")
  note f = ScanIgnoreWhitespace_facts [OF s]
  from assms obtain y ys where fy: "filter significant (pending p) = y # ys"
    and ky: "key y = (t, l)" and kys: "map key ys = xs"
    by (auto simp: sig_def)
  from f fy have e: "it = y" "filter significant (pending p') = ys" by simp_all
  obtain t' pos lit where it: "it = (t', pos, lit)" by (cases it)
  with e ky have tt: "t' = t" and ll: "t = IDENT \<Longrightarrow> lit = l" by (auto simp: key_def)
  from f have "pending (Unscan p') = it # pending p'"
    by (simp add: Unscan_def pending_def)
  with f e ky kys have u: "sig (pending (Unscan p')) = (t, l) # xs" by (simp add: sig_def)
  from e kys have "sig (pending p') = xs" by (simp add: sig_def)
  with s it tt ll u that show thesis by blast
qed

lemma ParseIdent_sig:
  assumes "sig (pending p) = ident l # xs"
  obtains p' where "ParseIdent p = (Inr l, p')" and "sig (pending p') = xs"
proof -
  from assms have "sig (pending p) = (IDENT, l) # xs" by (simp add: ident_def)
  then obtain pos lit p' where "ScanIgnoreWhitespace p = ((IDENT, pos, lit), p')"
    and "lit = l" and "sig (pending p') = xs"
    by (rule ScanIgnoreWhitespace_sig) simp
  then have "ParseIdent p = (Inr l, p')" by (simp add: ParseIdent_def)
  with \<open>sig (pending p') = xs\<close> that show thesis by blast
qed

lemma ParseIdentList_loop_sig:
  assumes "sig (pending p) = moreIdents fs @ (t, l) # xs" and "t \<noteq> COMMA"
  obtains p' where "ParseIdentList_loop p acc = (Inr (acc @ fs), p')"
    and "sig (pending p') = (t, l) # xs"
proof -
  from assms have "\<exists>p'. ParseIdentList_loop p acc = (Inr (acc @ fs), p') \<and> sig (pending p') = (t, l) # xs"
  proof (induction fs arbitrary: p acc)
    case Nil
    then have "sig (pending p) = (t, l) # xs" by (simp add: moreIdents_def)
    then obtain pos lit p1 where "ScanIgnoreWhitespace p = ((t, pos, lit), p1)"
      and "sig (pending (Unscan p1)) = (t, l) # xs"
      by (rule ScanIgnoreWhitespace_sig)
    with Nil.prems(2) show ?case by (simp add: ParseIdentList_loop.simps [of p])
  next
    case (Cons f fs)
    then have "sig (pending p) = (COMMA, []) # ident f # moreIdents fs @ (t, l) # xs"
      by (simp add: moreIdents_def kw_def)
    then obtain pos lit p1 where s: "ScanIgnoreWhitespace p = ((COMMA, pos, lit), p1)"
      and r1: "sig (pending p1) = ident f # moreIdents fs @ (t, l) # xs"
      by (rule ScanIgnoreWhitespace_sig)
    from r1 obtain p2 where i: "ParseIdent p1 = (Inr f, p2)"
      and r2: "sig (pending p2) = moreIdents fs @ (t, l) # xs"
      by (rule ParseIdent_sig)
    from Cons.IH [OF r2 Cons.prems(2), of "acc @ [f]"] s i show ?case
      by (simp add: ParseIdentList_loop.simps [of p])
  qed
  with that show thesis by blast
qed

lemma ParseIdentList_sig:
  assumes "sig (pending p) = ident f # moreIdents fs @ (t, l) # xs" and "t \<noteq> COMMA"
  obtains p' where "ParseIdentList p = (Inr (f # fs), p')"
    and "sig (pending p') = (t, l) # xs"
proof -
  from assms(1) obtain p1 where i: "ParseIdent p = (Inr f, p1)"
    and r1: "sig (pending p1) = moreIdents fs @ (t, l) # xs"
    by (rule ParseIdent_sig)
  from r1 assms(2) obtain p' where "ParseIdentList_loop p1 [f] = (Inr ([f] @ fs), p')"
    and "sig (pending p') = (t, l) # xs"
    by (rule ParseIdentList_loop_sig)
  with i that show thesis by (simp add: ParseIdentList_def)
qed

lemma parseFieldList_sig:
  assumes "sig (pending p) = kw LPAREN # ident f # moreIdents fs @ kw RPAREN # xs"
  obtains p' where "parseFieldList p = ((f # fs, True, None), p')"
proof -
  from assms obtain pos lit p1 where s: "ScanIgnoreWhitespace p = ((LPAREN, pos, lit), p1)"
    and r1: "sig (pending p1) = ident f # moreIdents fs @ (RPAREN, []) # xs"
    unfolding kw_def by (rule ScanIgnoreWhitespace_sig)
  have "RPAREN \<noteq> COMMA" by (simp add: RPAREN_def COMMA_def)
  with r1 obtain p2 where l: "ParseIdentList p1 = (Inr (f # fs), p2)"
    and r2: "sig (pending p2) = (RPAREN, []) # xs"
    by (rule ParseIdentList_sig)
  from r2 obtain pos' lit' p3 where s3: "ScanIgnoreWhitespace p2 = ((RPAREN, pos', lit'), p3)"
    by (rule ScanIgnoreWhitespace_sig)
  from s l s3 have "parseFieldList p = ((f # fs, True, None), p3)"
    by (simp add: parseFieldList_def)
  with that show thesis by blast
qed

definition errMoreThanOneField :: ParseError where
  "errMoreThanOneField =
     \<lparr>Message = ''indexes on more than one field not supported'',
      Found = [], Expected = [], ErrPos = \<lparr>Line = 0, Char = 0\<rparr>\<rparr>"

lemma parseCreateIndexStatement_rest_sig:
  assumes "sig (pending p) =
     [ident idx, kw ON, ident tbl, kw LPAREN, ident f] @ moreIdents fs @ kw RPAREN # xs"
  shows "\<exists>p'. parseCreateIndexStatement_rest stmt p =
     ((if fs = [] then (stmt\<lparr>indexName := idx, tableName := tbl, fieldName := f\<rparr>, None)
       else (stmt\<lparr>indexName := idx, tableName := tbl\<rparr>, Some errMoreThanOneField)), p')"
proof -
  from assms have "sig (pending p) =
      ident idx # kw ON # ident tbl # kw LPAREN # ident f # moreIdents fs @ kw RPAREN # xs"
    by simp
  then obtain p1 where i1: "ParseIdent p = (Inr idx, p1)"
    and r1: "sig (pending p1) =
      kw ON # ident tbl # kw LPAREN # ident f # moreIdents fs @ kw RPAREN # xs"
    by (rule ParseIdent_sig)
  from r1 obtain pos lit p2 where s2: "ScanIgnoreWhitespace p1 = ((ON, pos, lit), p2)"
    and r2: "sig (pending p2) = ident tbl # kw LPAREN # ident f # moreIdents fs @ kw RPAREN # xs"
    unfolding kw_def by (rule ScanIgnoreWhitespace_sig)
  from r2 obtain p3 where i3: "ParseIdent p2 = (Inr tbl, p3)"
    and r3: "sig (pending p3) = kw LPAREN # ident f # moreIdents fs @ kw RPAREN # xs"
    by (rule ParseIdent_sig)
  from r3 obtain p4 where l4: "parseFieldList p3 = ((f # fs, True, None), p4)"
    by (rule parseFieldList_sig)
  from i1 s2 i3 l4 show ?thesis
    by (simp add: parseCreateIndexStatement_rest_def errMoreThanOneField_def)
qed

text \<open>
  Claim C7. A \<^verbatim>\<open>CREATE [UNIQUE] INDEX\<close> statement (the tokens after \<^verbatim>\<open>INDEX\<close>: an
  optional \<^verbatim>\<open>IF NOT EXISTS\<close>, the index name, \<^verbatim>\<open>ON\<close>, the table name and a
  parenthesized list of fields \<open>f # fs\<close>, with any whitespace and comments in between and
  anything after the closing parenthesis) parses successfully when the list has exactly one
  field (\<open>fs = []\<close>), and fails with the parse error "indexes on more than one field not
  supported" when it has more than one. The parser reads tokens only; it has no access to a
  catalog or a store.
\<close>

theorem C7_composite_index_rejected:
  assumes "sig ts = createIndexTokens ifne idx tbl f fs @ follow"
  shows "\<exists>p'. parseCreateIndexStatement uniq (newParser ts) =
     ((if fs = []
       then (\<lparr>indexName = idx, tableName = tbl, fieldName = f,
               ifNotExists = ifne, unique = uniq\<rparr>, None)
       else (\<lparr>indexName = idx, tableName = tbl, fieldName = [],
               ifNotExists = ifne, unique = uniq\<rparr>, Some errMoreThanOneField)), p')"
proof (cases ifne)
  case True
  let ?p = "newParser ts"
  let ?tail = "[ident idx, kw ON, ident tbl, kw LPAREN, ident f] @ moreIdents fs @ kw RPAREN # follow"
  from assms True have "sig (pending ?p) = (IF, []) # (NOT, []) # (EXISTS, []) # ?tail"
    by (simp add: createIndexTokens_def newParser_def pending_def kw_def)
  then obtain pos1 lit1 p1 where s1: "ScanIgnoreWhitespace ?p = ((IF, pos1, lit1), p1)"
    and r1: "sig (pending p1) = (NOT, []) # (EXISTS, []) # ?tail"
    by (rule ScanIgnoreWhitespace_sig)
  from r1 obtain pos2 lit2 p2 where s2: "ScanIgnoreWhitespace p1 = ((NOT, pos2, lit2), p2)"
    and r2: "sig (pending p2) = (EXISTS, []) # ?tail"
    by (rule ScanIgnoreWhitespace_sig)
  from r2 obtain pos3 lit3 p3 where s3: "ScanIgnoreWhitespace p2 = ((EXISTS, pos3, lit3), p3)"
    and r3: "sig (pending p3) = ?tail"
    by (rule ScanIgnoreWhitespace_sig)
  from parseCreateIndexStatement_rest_sig
      [OF r3, of "emptyCreateIndexStmt\<lparr>unique := uniq, ifNotExists := True\<rparr>"] s1 s2 s3 True
  show ?thesis
    by (auto simp: parseCreateIndexStatement_def emptyCreateIndexStmt_def)
next
  case False
  let ?p = "newParser ts"
  let ?tail = "[ident idx, kw ON, ident tbl, kw LPAREN, ident f] @ moreIdents fs @ kw RPAREN # follow"
  from assms False have "sig (pending ?p) = (IDENT, idx) # tl ?tail"
    by (simp add: createIndexTokens_def newParser_def pending_def ident_def)
  then obtain pos1 lit1 p1 where s1: "ScanIgnoreWhitespace ?p = ((IDENT, pos1, lit1), p1)"
    and r1: "sig (pending (Unscan p1)) = (IDENT, idx) # tl ?tail"
    by (rule ScanIgnoreWhitespace_sig)
  from r1 have r: "sig (pending (Unscan p1)) = ?tail" by (simp add: ident_def)
  have "IDENT \<noteq> IF" by (simp add: IDENT_def IF_def)
  with parseCreateIndexStatement_rest_sig
      [OF r, of "emptyCreateIndexStmt\<lparr>unique := uniq\<rparr>"] s1 False
  show ?thesis
    by (auto simp: parseCreateIndexStatement_def emptyCreateIndexStmt_def)
qed

theorem C7_composite_index_rejected_witness:
  "sig [(WS, \<lparr>Line = 0, Char = 12\<rparr>, '' ''), (IDENT, \<lparr>Line = 0, Char = 13\<rparr>, ''idx''),
        (WS, \<lparr>Line = 0, Char = 16\<rparr>, '' ''), (ON, \<lparr>Line = 0, Char = 17\<rparr>, []),
        (WS, \<lparr>Line = 0, Char = 19\<rparr>, '' ''), (IDENT, \<lparr>Line = 0, Char = 20\<rparr>, ''t''),
        (LPAREN, \<lparr>Line = 0, Char = 21\<rparr>, []), (IDENT, \<lparr>Line = 0, Char = 22\<rparr>, ''a''),
        (COMMA, \<lparr>Line = 0, Char = 23\<rparr>, []), (WS, \<lparr>Line = 0, Char = 24\<rparr>, '' ''),
        (IDENT, \<lparr>Line = 0, Char = 25\<rparr>, ''b''), (RPAREN, \<lparr>Line = 0, Char = 26\<rparr>, [])]
     = createIndexTokens False ''idx'' ''t'' ''a'' [''b''] @ []
   \<and> (\<exists>p'. parseCreateIndexStatement False (newParser
       [(WS, \<lparr>Line = 0, Char = 12\<rparr>, '' ''), (IDENT, \<lparr>Line = 0, Char = 13\<rparr>, ''idx''),
        (WS, \<lparr>Line = 0, Char = 16\<rparr>, '' ''), (ON, \<lparr>Line = 0, Char = 17\<rparr>, []),
        (WS, \<lparr>Line = 0, Char = 19\<rparr>, '' ''), (IDENT, \<lparr>Line = 0, Char = 20\<rparr>, ''t''),
        (LPAREN, \<lparr>Line = 0, Char = 21\<rparr>, []), (IDENT, \<lparr>Line = 0, Char = 22\<rparr>, ''a''),
        (COMMA, \<lparr>Line = 0, Char = 23\<rparr>, []), (WS, \<lparr>Line = 0, Char = 24\<rparr>, '' ''),
        (IDENT, \<lparr>Line = 0, Char = 25\<rparr>, ''b''), (RPAREN, \<lparr>Line = 0, Char = 26\<rparr>, [])])
     = ((\<lparr>indexName = ''idx'', tableName = ''t'', fieldName = [],
          ifNotExists = False, unique = False\<rparr>, Some errMoreThanOneField), p'))"
proof -
  let ?ts = "[(WS, \<lparr>Line = 0, Char = 12\<rparr>, '' ''), (IDENT, \<lparr>Line = 0, Char = 13\<rparr>, ''idx''),
        (WS, \<lparr>Line = 0, Char = 16\<rparr>, '' ''), (ON, \<lparr>Line = 0, Char = 17\<rparr>, []),
        (WS, \<lparr>Line = 0, Char = 19\<rparr>, '' ''), (IDENT, \<lparr>Line = 0, Char = 20\<rparr>, ''t''),
        (LPAREN, \<lparr>Line = 0, Char = 21\<rparr>, []), (IDENT, \<lparr>Line = 0, Char = 22\<rparr>, ''a''),
        (COMMA, \<lparr>Line = 0, Char = 23\<rparr>, []), (WS, \<lparr>Line = 0, Char = 24\<rparr>, '' ''),
        (IDENT, \<lparr>Line = 0, Char = 25\<rparr>, ''b''), (RPAREN, \<lparr>Line = 0, Char = 26\<rparr>, [])]"
  have h: "sig ?ts = createIndexTokens False ''idx'' ''t'' ''a'' [''b''] @ []"
    by (simp add: sig_def key_def significant_def createIndexTokens_def moreIdents_def kw_def
        ident_def WS_def IDENT_def ON_def LPAREN_def COMMA_def RPAREN_def COMMENT_def)
  from C7_composite_index_rejected [OF h, of False] h show ?thesis by simp
qed

section \<open>Fields, records and expressions (package query)\<close>

text \<open>\<^verbatim>\<open>[]byte\<close>\<close>

type_synonym bytes = "8 word list"

text \<open>
  Modelled from the spec: the type \<^verbatim>\<open>field.Type\<close> is not under src/. "A tagged variant
  over: Null, Bool, Int8/16/32/64, Uint8/16/32/64, Float64, Text, Blob, Array, Document".
\<close>

datatype FieldType =
  Null | Bool | Int8 | Int16 | Int32 | Int64 | Uint8 | Uint16 | Uint32 | Uint64
  | Float64 | Text | Blob | Array | Document

text \<open>\<^verbatim>\<open>field.Field{Name: ..., Type: ..., Data: ...}\<close>, as query.go builds it.\<close>

record Field =
  Name :: string
  Type :: FieldType
  Data :: bytes

text \<open>
  A \<^verbatim>\<open>record.FieldBuffer\<close> is a slice of fields (\<^verbatim>\<open>record.FieldBuffer([]field.Field{...})\<close>),
  and a \<^verbatim>\<open>record.Record\<close> is read as the list of its fields. \<^verbatim>\<open>record.Schema\<close> holds
  \<^verbatim>\<open>Fields: []field.Field\<close>, of which a schema uses \<^verbatim>\<open>Name\<close> and \<^verbatim>\<open>Type\<close>.
\<close>

type_synonym FieldBuffer = "Field list"

record Schema =
  Fields :: "Field list"

text \<open>
  The errors of package query. \<^verbatim>\<open>errStop\<close> is the package's sentinel, compared by
  identity (\<^verbatim>\<open>err != errStop\<close>), so it is a constructor of its own and differs from every
  other \<^verbatim>\<open>errors.New("stop")\<close>. \<^verbatim>\<open>ErrorNew s\<close> is \<^verbatim>\<open>errors.New(s)\<close>; the three
  \<^verbatim>\<open>fmt.Errorf\<close> messages keep their arguments instead of the formatted text;
  \<^verbatim>\<open>Foreign\<close> is an error returned by a callee outside query.go (expression
  evaluation, the table, the field buffer); \<^verbatim>\<open>io_EOF\<close> is \<^verbatim>\<open>io.EOF\<close>.
\<close>

datatype error =
    errStop
  | io_EOF
  | ErrorNew string
  | Errorf_table_fields string nat nat
  | Errorf_cannot_assign FieldType FieldType
  | Errorf_values_for_fields nat nat
  | Foreign string

text \<open>
  \<^verbatim>\<open>Scalar\<close>: the value an expression evaluates to; query.go reads \<^verbatim>\<open>Type\<close>,
  \<^verbatim>\<open>Data\<close> and \<^verbatim>\<open>Truthy()\<close>. The method \<^verbatim>\<open>Truthy\<close> is not under src/ and is a
  parameter of the functions that call it.
\<close>

record Scalar =
  ScalarType :: FieldType
  ScalarData :: bytes

text \<open>
  \<^verbatim>\<open>EvalContext{Tx: tx, Record: r}\<close>; \<open>Record = None\<close> when the literal leaves the
  record out. An \<^verbatim>\<open>Expr\<close> is its \<^verbatim>\<open>Eval\<close> method, returning \<^verbatim>\<open>(Scalar, error)\<close>.
  The transaction \<open>'tx\<close> is a value: evaluating an expression does not see the writes the
  running statement makes.
\<close>

record 'tx EvalContext =
  Tx :: 'tx
  Record :: "Field list option"

type_synonym 'tx Expr = "'tx EvalContext \<Rightarrow> error + Scalar"

text \<open>A \<^verbatim>\<open>table.Reader\<close> is read as the list of its records with their ids, in scan order.\<close>

type_synonym Reader = "(bytes \<times> Field list) list"

subsection \<open>\<^verbatim>\<open>table.Browser\<close>\<close>

text \<open>
  Modelled from the spec: \<^verbatim>\<open>table.Browser\<close> with \<^verbatim>\<open>NewBrowser\<close>, \<^verbatim>\<open>Filter\<close>,
  \<^verbatim>\<open>ForEach\<close> and \<^verbatim>\<open>Err\<close> is not under src/. "Each operator exposes iterate(env,
  callback); the callback is invoked per output document and returns either continue, stop
  (propagated as non-error early termination), or an error (aborts iteration)";
  Filter: "records where expr truthy". The browser holds the reader and the first error;
  \<^verbatim>\<open>Filter\<close> calls the function on each record in scan order, keeps the records for
  which it returns true and stops at the first error, which it stores. The function is a
  closure over variables of the caller; their values are the state \<open>'s\<close>, passed in and
  returned.
\<close>

record Browser =
  Reader :: Reader
  Browser_err :: "error option"

definition NewBrowser :: "Reader \<Rightarrow> Browser" where
  "NewBrowser t = \<lparr>Reader = t, Browser_err = None\<rparr>"

fun Filter_loop ::
  "('s \<Rightarrow> bytes \<Rightarrow> Field list \<Rightarrow> (bool \<times> error option) \<times> 's) \<Rightarrow> 's \<Rightarrow> Reader \<Rightarrow> Reader
     \<Rightarrow> (Reader \<times> error option) \<times> 's" where
  "Filter_loop fn s [] kept = ((kept, None), s)"
| "Filter_loop fn s ((recordID, r) # rest) kept =
     (case fn s recordID r of
        ((ok, Some err), s') \<Rightarrow> ((kept, Some err), s')
      | ((ok, None), s') \<Rightarrow>
          Filter_loop fn s' rest (if ok then kept @ [(recordID, r)] else kept))"

definition Filter ::
  "('s \<Rightarrow> bytes \<Rightarrow> Field list \<Rightarrow> (bool \<times> error option) \<times> 's) \<Rightarrow> 's \<Rightarrow> Browser \<Rightarrow> Browser \<times> 's" where
  "Filter fn s b =
     (if Browser_err b \<noteq> None then (b, s)
      else (case Filter_loop fn s (Reader b) [] of
              ((kept, err), s') \<Rightarrow> (\<lparr>Reader = kept, Browser_err = err\<rparr>, s')))"

definition Err :: "Browser \<Rightarrow> error option" where
  "Err b = Browser_err b"

subsection \<open>\<^verbatim>\<open>whereClause\<close>\<close>

text \<open>
  The function literal passed to \<^verbatim>\<open>Filter\<close>. It closes over \<^verbatim>\<open>skipped\<close> and
  \<^verbatim>\<open>count\<close>, both \<^verbatim>\<open>int64\<close>: the pair is the state, and \<^verbatim>\<open>limit\<close> and \<^verbatim>\<open>offset\<close>
  are \<^verbatim>\<open>int64\<close> too. Comparisons are signed, \<^verbatim>\<open>++\<close> wraps. The result is the pair
  \<^verbatim>\<open>(bool, error)\<close>.
\<close>

definition whereClause_filter ::
  "(Scalar \<Rightarrow> bool) \<Rightarrow> 'tx \<Rightarrow> 'tx Expr \<Rightarrow> 64 word \<Rightarrow> 64 word
     \<Rightarrow> 64 word \<times> 64 word \<Rightarrow> bytes \<Rightarrow> Field list \<Rightarrow> (bool \<times> error option) \<times> (64 word \<times> 64 word)" where
  "whereClause_filter Truthy tx e limit offset st recordID r =
     (case st of (skipped, count) \<Rightarrow>
        (case e \<lparr>Tx = tx, Record = Some r\<rparr> of
           Inl err \<Rightarrow> ((False, Some err), (skipped, count))
         | Inr sc \<Rightarrow>
             if \<not> Truthy sc then ((False, None), (skipped, count))
             else if skipped <s offset then ((False, None), (skipped + 1, count))
             else if 0 \<le>s limit \<and> limit \<le>s count then ((False, Some errStop), (skipped, count))
             else ((True, None), (skipped, count + 1))))"

text \<open>
  \<^verbatim>\<open>whereClause\<close> returns \<^verbatim>\<open>(table.Reader, error)\<close>. The expression \<open>e\<close> is not
  \<^verbatim>\<open>nil\<close> (calling \<^verbatim>\<open>Eval\<close> on a \<^verbatim>\<open>nil\<close> interface panics at the first record).
\<close>

definition whereClause ::
  "(Scalar \<Rightarrow> bool) \<Rightarrow> 'tx \<Rightarrow> Reader \<Rightarrow> 'tx Expr \<Rightarrow> 64 word \<Rightarrow> 64 word \<Rightarrow> Reader \<times> error option" where
  "whereClause Truthy tx t e limit offset =
     (let (b, st) = Filter (whereClause_filter Truthy tx e limit offset) (0, 0) (NewBrowser t);
          err = Err b
      in if err \<noteq> None \<and> err \<noteq> Some errStop then (Reader b, err) else (Reader b, None))"

definition satisfies :: "(Scalar \<Rightarrow> bool) \<Rightarrow> 'tx \<Rightarrow> 'tx Expr \<Rightarrow> Field list \<Rightarrow> bool" where
  "satisfies Truthy tx e r =
     (case e \<lparr>Tx = tx, Record = Some r\<rparr> of Inl err \<Rightarrow> False | Inr sc \<Rightarrow> Truthy sc)"

lemma sint_succ_64:
  fixes w v :: "64 word"
  assumes "sint w < sint v"
  shows "sint (w + 1) = sint w + 1"
proof -
  have lo: "- (2 ^ 63) \<le> sint w" using sint_ge [of w] by simp
  have "sint v < 2 ^ 63" using sint_lt [of v] by simp
  with assms have hi: "sint w + 1 < 2 ^ 63" by simp
  have "sint (w + 1) = signed_take_bit 63 (sint w + 1)"
    by (simp add: sint_word_add)
  also have "\<dots> = sint w + 1"
    using lo hi by (intro signed_take_bit_int_eq_self) simp_all
  finally show ?thesis .
qed

lemma whereClause_filter_loop:
  fixes lim off sk ct :: "64 word"
  assumes "\<forall>x \<in> set recs. satisfies Truthy tx e (snd x)"
    and "0 \<le> sint sk" and "sint sk \<le> max 0 (sint off)"
    and "0 \<le> sint lim \<Longrightarrow> 0 \<le> sint ct \<and> sint ct \<le> sint lim"
  shows "\<exists>err st. Filter_loop (whereClause_filter Truthy tx e lim off) (sk, ct) recs kept =
      ((kept @ (if sint lim < 0 then drop (nat (sint off - sint sk)) recs
                else take (nat (sint lim - sint ct)) (drop (nat (sint off - sint sk)) recs)),
        err), st)
     \<and> (err = None \<or> err = Some errStop)"
  using assms
proof (induction recs arbitrary: sk ct kept)
  case Nil
  show ?case by simp
next
  case (Cons x recs)
  obtain recordID r where x: "x = (recordID, r)" by (cases x)
  from Cons.prems(1) x obtain sc where ev: "e \<lparr>Tx = tx, Record = Some r\<rparr> = Inr sc"
    and tr: "Truthy sc"
    by (auto simp: satisfies_def split: sum.splits)
  from Cons.prems(1) have sat: "\<forall>x \<in> set recs. satisfies Truthy tx e (snd x)" by simp
  show ?case
  proof (cases "sk <s off")
    case True
    then have lt: "sint sk < sint off" by (simp add: word_sless_alt)
    then have s1: "sint (sk + 1) = sint sk + 1" by (rule sint_succ_64)
    have step: "whereClause_filter Truthy tx e lim off (sk, ct) recordID r
        = ((False, None), (sk + 1, ct))"
      using ev tr True by (simp add: whereClause_filter_def)
    from lt Cons.prems(2) s1 have i1: "0 \<le> sint (sk + 1)" "sint (sk + 1) \<le> max 0 (sint off)"
      by simp_all
    from Cons.IH [OF sat i1 Cons.prems(4), of kept]
    obtain err st where ih: "Filter_loop (whereClause_filter Truthy tx e lim off) (sk + 1, ct) recs kept =
      ((kept @ (if sint lim < 0 then drop (nat (sint off - sint (sk + 1))) recs
                else take (nat (sint lim - sint ct)) (drop (nat (sint off - sint (sk + 1))) recs)),
        err), st)" and er: "err = None \<or> err = Some errStop"
      by blast
    from lt s1 have d: "nat (sint off - sint sk) = Suc (nat (sint off - sint (sk + 1)))"
      by simp
    from step ih er d x show ?thesis by simp
  next
    case False
    then have ge: "sint off \<le> sint sk" by (simp add: word_sless_alt)
    then have d: "nat (sint off - sint sk) = 0" by simp
    show ?thesis
    proof (cases "0 \<le>s lim \<and> lim \<le>s ct")
      case True
      then have l0: "0 \<le> sint lim" and lc: "sint lim \<le> sint ct"
        by (simp_all add: word_sle_eq)
      with Cons.prems(4) have "sint lim - sint ct = 0" by simp
      moreover have "whereClause_filter Truthy tx e lim off (sk, ct) recordID r
          = ((False, Some errStop), (sk, ct))"
        using ev tr False True by (simp add: whereClause_filter_def)
      ultimately show ?thesis using l0 x by simp
    next
      case nolimit: False
      have step: "whereClause_filter Truthy tx e lim off (sk, ct) recordID r
          = ((True, None), (sk, ct + 1))"
        using ev tr False nolimit by (simp add: whereClause_filter_def)
      show ?thesis
      proof (cases "0 \<le> sint lim")
        case True
        with nolimit have lt: "sint ct < sint lim" by (simp add: word_sle_eq)
        then have c1: "sint (ct + 1) = sint ct + 1" by (rule sint_succ_64)
        from True Cons.prems(4) lt c1
        have i4: "0 \<le> sint lim \<Longrightarrow> 0 \<le> sint (ct + 1) \<and> sint (ct + 1) \<le> sint lim" by simp
        from Cons.IH [OF sat Cons.prems(2,3) i4, of "kept @ [x]"]
        obtain err st where ih: "Filter_loop (whereClause_filter Truthy tx e lim off) (sk, ct + 1) recs (kept @ [x]) =
          (((kept @ [x]) @ (if sint lim < 0 then drop (nat (sint off - sint sk)) recs
                else take (nat (sint lim - sint (ct + 1))) (drop (nat (sint off - sint sk)) recs)),
            err), st)" and er: "err = None \<or> err = Some errStop"
          by blast
        from lt c1 have t: "nat (sint lim - sint ct) = Suc (nat (sint lim - sint (ct + 1)))"
          by simp
        from step ih er d t True x show ?thesis by simp
      next
        case neg: False
        then have i4: "0 \<le> sint lim \<Longrightarrow> 0 \<le> sint (ct + 1) \<and> sint (ct + 1) \<le> sint lim" by simp
        from Cons.IH [OF sat Cons.prems(2,3) i4, of "kept @ [x]"]
        obtain err st where ih: "Filter_loop (whereClause_filter Truthy tx e lim off) (sk, ct + 1) recs (kept @ [x]) =
          (((kept @ [x]) @ (if sint lim < 0 then drop (nat (sint off - sint sk)) recs
                else take (nat (sint lim - sint (ct + 1))) (drop (nat (sint off - sint sk)) recs)),
            err), st)" and er: "err = None \<or> err = Some errStop"
          by blast
        from step ih er d neg x show ?thesis by simp
      qed
    qed
  qed
qed

subsection \<open>The record stream of the driver\<close>

text \<open>\<^verbatim>\<open>type rec struct { r record.Record; err error }\<close>, the message on the channel \<^verbatim>\<open>rs.c\<close>.\<close>

record rec =
  rec_r :: "Field list option"
  rec_err :: "error option"

text \<open>
  The function literal \<^verbatim>\<open>recordStream.iterate\<close> passes to \<^verbatim>\<open>rs.res.Iterate\<close>. It
  has two \<^verbatim>\<open>select\<close> statements; \<open>done1\<close> and \<open>done2\<close> say whether the case
  \<^verbatim>\<open><-ctx.Done()\<close> is the one taken. The result is the messages sent on \<^verbatim>\<open>rs.c\<close> and
  the error returned.
\<close>

definition iterate_callback :: "bool \<Rightarrow> bool \<Rightarrow> Field list \<Rightarrow> rec list \<times> error option" where
  "iterate_callback done1 done2 r =
     (if done1 then ([], Some errStop)
      else ([\<lparr>rec_r = Some r, rec_err = None\<rparr>], if done2 then Some errStop else None))"

text \<open>
  The end of \<^verbatim>\<open>recordStream.iterate\<close>: the messages sent on \<^verbatim>\<open>rs.c\<close> once
  \<^verbatim>\<open>rs.res.Iterate\<close> has returned \<open>err\<close>. The deferred \<^verbatim>\<open>close(rs.c)\<close> follows them.
\<close>

definition iterate_end :: "error option \<Rightarrow> rec list" where
  "iterate_end err =
     (if err = Some errStop \<or> err = None then []
      else if err \<noteq> None then [\<lparr>rec_r = None, rec_err = err\<rparr>]
      else [])"

text \<open>
  \<^verbatim>\<open>recordStream.Next\<close> after \<^verbatim>\<open>rec, ok := <-rs.c\<close>: \<open>None\<close> is the closed channel
  (\<^verbatim>\<open>!ok\<close>). The result is the error returned at once, or \<open>None\<close> when \<^verbatim>\<open>Next\<close>
  goes on to copy the record into \<^verbatim>\<open>dest\<close>.
\<close>

definition Next_received :: "rec option \<Rightarrow> error option" where
  "Next_received m =
     (case m of
        None \<Rightarrow> Some io_EOF
      | Some rc \<Rightarrow> (if rec_err rc \<noteq> None then rec_err rc else None))"

text \<open>
  Claim C2. When every record of the scan satisfies the WHERE predicate, the reader
  returned by \<^verbatim>\<open>whereClause\<close> holds, with offset \<open>k \<ge> 0\<close> and limit \<open>m \<ge> 0\<close>, exactly the
  records at scan positions \<open>k\<close> up to \<open>k + min m (max 0 (N - k)) - 1\<close>, that is
  \<open>take m (drop k t)\<close>, and their number is \<open>min m (max 0 (N - k))\<close>; an offset of -1 skips
  no record and a limit of -1 returns all that remain. The error returned is \<^verbatim>\<open>nil\<close>.
\<close>

theorem C2_whereClause_offset_limit:
  assumes "\<forall>x \<in> set t. satisfies Truthy tx e (snd x)"
  shows "snd (whereClause Truthy tx t e limit offset) = None
    \<and> (0 \<le> sint offset \<and> 0 \<le> sint limit \<longrightarrow>
         fst (whereClause Truthy tx t e limit offset)
           = take (nat (sint limit)) (drop (nat (sint offset)) t)
         \<and> int (length (fst (whereClause Truthy tx t e limit offset)))
           = min (sint limit) (max 0 (int (length t) - sint offset))
         \<and> (\<forall>j < length (fst (whereClause Truthy tx t e limit offset)).
              fst (whereClause Truthy tx t e limit offset) ! j = t ! (nat (sint offset) + j)))
    \<and> (0 \<le> sint offset \<and> limit = - 1 \<longrightarrow>
         fst (whereClause Truthy tx t e limit offset) = drop (nat (sint offset)) t)
    \<and> (offset = - 1 \<and> 0 \<le> sint limit \<longrightarrow>
         fst (whereClause Truthy tx t e limit offset) = take (nat (sint limit)) t)
    \<and> (offset = - 1 \<and> limit = - 1 \<longrightarrow> fst (whereClause Truthy tx t e limit offset) = t)"
proof -
  let ?R = "if sint limit < 0 then drop (nat (sint offset - sint (0 :: 64 word))) t
            else take (nat (sint limit - sint (0 :: 64 word)))
                   (drop (nat (sint offset - sint (0 :: 64 word))) t)"
  have "\<exists>err st. Filter_loop (whereClause_filter Truthy tx e limit offset) (0, 0) t [] =
      (([] @ ?R, err), st) \<and> (err = None \<or> err = Some errStop)"
    using assms by (intro whereClause_filter_loop) simp_all
  then obtain err st where
    loop: "Filter_loop (whereClause_filter Truthy tx e limit offset) (0, 0) t [] = ((?R, err), st)"
    and err: "err = None \<or> err = Some errStop"
    by auto
  from loop err have w: "whereClause Truthy tx t e limit offset = (?R, None)"
    by (auto simp: whereClause_def Filter_def NewBrowser_def Err_def)
  have n1: "sint (- 1 :: 64 word) = - 1" by (rule sint_n1)
  show ?thesis
  proof (intro conjI impI allI)
    show "snd (whereClause Truthy tx t e limit offset) = None" using w by simp
  next
    assume "0 \<le> sint offset \<and> 0 \<le> sint limit"
    then show "fst (whereClause Truthy tx t e limit offset)
        = take (nat (sint limit)) (drop (nat (sint offset)) t)"
      using w by simp
  next
    assume "0 \<le> sint offset \<and> 0 \<le> sint limit"
    then show "int (length (fst (whereClause Truthy tx t e limit offset)))
        = min (sint limit) (max 0 (int (length t) - sint offset))"
      using w by (simp add: min_def max_def) linarith
  next
    fix j
    assume "0 \<le> sint offset \<and> 0 \<le> sint limit"
      and "j < length (fst (whereClause Truthy tx t e limit offset))"
    then have "j < length t - nat (sint offset)" and "j < nat (sint limit)"
      using w by simp_all
    then have "nat (sint offset) \<le> length t"
      and "take (nat (sint limit)) (drop (nat (sint offset)) t) ! j = drop (nat (sint offset)) t ! j"
      by simp_all
    then have "take (nat (sint limit)) (drop (nat (sint offset)) t) ! j = t ! (nat (sint offset) + j)"
      by (simp add: nth_drop)
    then show "fst (whereClause Truthy tx t e limit offset) ! j = t ! (nat (sint offset) + j)"
      using w \<open>0 \<le> sint offset \<and> 0 \<le> sint limit\<close> by simp
  next
    assume "0 \<le> sint offset \<and> limit = - 1"
    then show "fst (whereClause Truthy tx t e limit offset) = drop (nat (sint offset)) t"
      using w n1 by simp
  next
    assume "offset = - 1 \<and> 0 \<le> sint limit"
    then show "fst (whereClause Truthy tx t e limit offset) = take (nat (sint limit)) t"
      using w n1 by simp
  next
    assume "offset = - 1 \<and> limit = - 1"
    then show "fst (whereClause Truthy tx t e limit offset) = t"
      using w n1 by simp
  qed
qed

theorem C2_whereClause_offset_limit_witness:
  "whereClause (\<lambda>sc. ScalarData sc \<noteq> [0]) ()
      [([1], [\<lparr>Name = ''a'', Type = Int64, Data = [10]\<rparr>]),
       ([2], [\<lparr>Name = ''a'', Type = Int64, Data = [20]\<rparr>]),
       ([3], [\<lparr>Name = ''a'', Type = Int64, Data = [30]\<rparr>]),
       ([4], [\<lparr>Name = ''a'', Type = Int64, Data = [40]\<rparr>]),
       ([5], [\<lparr>Name = ''a'', Type = Int64, Data = [50]\<rparr>])]
      (\<lambda>c. Inr \<lparr>ScalarType = Bool, ScalarData = [1]\<rparr>) 2 1
    = ([([2], [\<lparr>Name = ''a'', Type = Int64, Data = [20]\<rparr>]),
        ([3], [\<lparr>Name = ''a'', Type = Int64, Data = [30]\<rparr>])], None)"
proof -
  let ?t = "[([1], [\<lparr>Name = ''a'', Type = Int64, Data = [10]\<rparr>]),
       ([2], [\<lparr>Name = ''a'', Type = Int64, Data = [20]\<rparr>]),
       ([3], [\<lparr>Name = ''a'', Type = Int64, Data = [30]\<rparr>]),
       ([4], [\<lparr>Name = ''a'', Type = Int64, Data = [40]\<rparr>]),
       ([5 :: 8 word], [\<lparr>Name = ''a'', Type = Int64, Data = [50]\<rparr>])]"
  let ?e = "\<lambda>c :: unit EvalContext. Inr \<lparr>ScalarType = Bool, ScalarData = [1]\<rparr> :: error + Scalar"
  let ?T = "\<lambda>sc. ScalarData sc \<noteq> [0]"
  have h: "\<forall>x \<in> set ?t. satisfies ?T () ?e (snd x)"
    by (simp add: satisfies_def)
  have "0 \<le> sint (1 :: 64 word) \<and> 0 \<le> sint (2 :: 64 word)" by simp
  with C2_whereClause_offset_limit [OF h, of 2 1]
  have "snd (whereClause ?T () ?t ?e 2 1) = None"
    and "fst (whereClause ?T () ?t ?e 2 1) = take (nat (sint (2 :: 64 word))) (drop (nat (sint (1 :: 64 word))) ?t)"
    by blast+
  then show ?thesis by (simp add: prod_eq_iff)
qed

text \<open>
  Claim C9. The sentinel \<^verbatim>\<open>errStop\<close> does not leave \<^verbatim>\<open>whereClause\<close>: its error result is
  never \<^verbatim>\<open>errStop\<close>, it is \<^verbatim>\<open>nil\<close> when the filter stopped with \<^verbatim>\<open>errStop\<close>, and every
  other error of the filter is returned. In the record stream, when the iteration ends with
  \<^verbatim>\<open>errStop\<close> nothing is sent before the channel is closed, so \<^verbatim>\<open>Next\<close> never receives
  \<^verbatim>\<open>errStop\<close>; every other error is sent and \<^verbatim>\<open>Next\<close> returns it; the messages of the
  iteration itself carry no error.
\<close>

theorem C9_errStop_never_escapes:
  "snd (whereClause Truthy tx t e limit offset) \<noteq> Some errStop
   \<and> (Err (fst (Filter (whereClause_filter Truthy tx e limit offset) (0, 0) (NewBrowser t)))
        = Some errStop \<longrightarrow> snd (whereClause Truthy tx t e limit offset) = None)
   \<and> (\<forall>err. Err (fst (Filter (whereClause_filter Truthy tx e limit offset) (0, 0) (NewBrowser t)))
        = Some err \<and> err \<noteq> errStop \<longrightarrow> snd (whereClause Truthy tx t e limit offset) = Some err)
   \<and> iterate_end (Some errStop) = []
   \<and> (\<forall>err. \<forall>m \<in> set (iterate_end err). Next_received (Some m) \<noteq> Some errStop)
   \<and> (\<forall>err. err \<noteq> errStop \<longrightarrow>
        map (\<lambda>m. Next_received (Some m)) (iterate_end (Some err)) = [Some err])
   \<and> (\<forall>done1 done2 r. \<forall>m \<in> set (fst (iterate_callback done1 done2 r)).
        Next_received (Some m) = None)"
proof -
  obtain b st where f: "Filter (whereClause_filter Truthy tx e limit offset) (0, 0) (NewBrowser t) = (b, st)"
    by (cases "Filter (whereClause_filter Truthy tx e limit offset) (0, 0) (NewBrowser t)")
  then have w: "whereClause Truthy tx t e limit offset =
      (if Err b \<noteq> None \<and> Err b \<noteq> Some errStop then (Reader b, Err b) else (Reader b, None))"
    by (simp add: whereClause_def)
  have 1: "snd (whereClause Truthy tx t e limit offset) \<noteq> Some errStop"
    using w by auto
  have 2: "Err (fst (Filter (whereClause_filter Truthy tx e limit offset) (0, 0) (NewBrowser t)))
        = Some errStop \<longrightarrow> snd (whereClause Truthy tx t e limit offset) = None"
    using w f by simp
  have 3: "\<forall>err. Err (fst (Filter (whereClause_filter Truthy tx e limit offset) (0, 0) (NewBrowser t)))
        = Some err \<and> err \<noteq> errStop \<longrightarrow> snd (whereClause Truthy tx t e limit offset) = Some err"
    using w f by simp
  have 4: "iterate_end (Some errStop) = []"
    by (simp add: iterate_end_def)
  have 5: "\<forall>err. \<forall>m \<in> set (iterate_end err). Next_received (Some m) \<noteq> Some errStop"
    by (simp add: iterate_end_def Next_received_def)
  have 6: "\<forall>err. err \<noteq> errStop \<longrightarrow>
        map (\<lambda>m. Next_received (Some m)) (iterate_end (Some err)) = [Some err]"
    by (simp add: iterate_end_def Next_received_def)
  have 7: "\<forall>done1 done2 r. \<forall>m \<in> set (fst (iterate_callback done1 done2 r)).
        Next_received (Some m) = None"
    by (simp add: iterate_callback_def Next_received_def)
  from 1 2 3 4 5 6 7 show ?thesis by blast
qed

theorem C9_errStop_never_escapes_witness:
  "Err (fst (Filter (whereClause_filter (\<lambda>sc. ScalarData sc \<noteq> [0]) ()
          (\<lambda>c. Inr \<lparr>ScalarType = Bool, ScalarData = [1]\<rparr>) 1 0) (0, 0)
        (NewBrowser [([1], [\<lparr>Name = ''a'', Type = Int64, Data = [10]\<rparr>]),
                     ([2], [\<lparr>Name = ''a'', Type = Int64, Data = [20]\<rparr>])])))
     = Some errStop
   \<and> snd (whereClause (\<lambda>sc. ScalarData sc \<noteq> [0]) ()
        [([1], [\<lparr>Name = ''a'', Type = Int64, Data = [10]\<rparr>]),
         ([2], [\<lparr>Name = ''a'', Type = Int64, Data = [20]\<rparr>])]
        (\<lambda>c. Inr \<lparr>ScalarType = Bool, ScalarData = [1]\<rparr>) 1 0) = None
   \<and> Foreign ''engine'' \<noteq> errStop
   \<and> map (\<lambda>m. Next_received (Some m)) (iterate_end (Some (Foreign ''engine'')))
     = [Some (Foreign ''engine'')]
   \<and> set (iterate_end (Some errStop)) = {}
   \<and> Next_received None = Some io_EOF"
proof -
  let ?t = "[([1], [\<lparr>Name = ''a'', Type = Int64, Data = [10]\<rparr>]),
             ([2 :: 8 word], [\<lparr>Name = ''a'', Type = Int64, Data = [20]\<rparr>])]"
  let ?e = "\<lambda>c :: unit EvalContext. Inr \<lparr>ScalarType = Bool, ScalarData = [1]\<rparr> :: error + Scalar"
  let ?T = "\<lambda>sc. ScalarData sc \<noteq> [0]"
  have h: "Err (fst (Filter (whereClause_filter ?T () ?e 1 0) (0, 0) (NewBrowser ?t))) = Some errStop"
    by (simp add: Filter_def NewBrowser_def Err_def whereClause_filter_def word_sless_alt word_sle_eq)
  have g: "Foreign ''engine'' \<noteq> errStop" by simp
  from C9_errStop_never_escapes [of ?T "()" ?t ?e 1 0] h g show ?thesis
    by (simp add: Next_received_def)
qed

section \<open>Tables and the INSERT statement (package query)\<close>

text \<open>
  A \<^verbatim>\<open>[]Expr\<close> or \<^verbatim>\<open>[]string\<close> indexed out of range panics; so does a method call on a
  \<^verbatim>\<open>nil\<close> interface. A function that can panic returns \<open>Panics\<close> instead of a value.
\<close>

datatype 'a ret = Returns 'a | Panics

text \<open>
  The methods of \<^verbatim>\<open>*genji.Table\<close> that query.go calls are not under src/. A table is a
  value \<open>'t\<close>, its state, and the methods are parameters, collected in a record:
  \<^verbatim>\<open>t.Schema()\<close> returns \<^verbatim>\<open>(schema, schemaful)\<close>, here \<open>None\<close> for a schemaless table;
  \<^verbatim>\<open>t.Insert(&fb)\<close> returns \<^verbatim>\<open>(recordID, err)\<close> and \<^verbatim>\<open>t.Replace(recordID, &fb)\<close> returns
  \<^verbatim>\<open>err\<close>, both with the table after the call.
\<close>

record 't Table_methods =
  Table_Schema :: "'t \<Rightarrow> Schema option"
  Table_Insert :: "'t \<Rightarrow> FieldBuffer \<Rightarrow> (error + bytes) \<times> 't"
  Table_Replace :: "'t \<Rightarrow> bytes \<Rightarrow> FieldBuffer \<Rightarrow> error option \<times> 't"

text \<open>
  \<^verbatim>\<open>TableSelector\<close> is an interface; query.go calls \<^verbatim>\<open>SelectTable(tx)\<close>, which returns
  \<^verbatim>\<open>(*genji.Table, error)\<close>, and \<^verbatim>\<open>Name()\<close>.
\<close>

record ('tx, 't) TableSelector =
  SelectTable :: "'tx \<Rightarrow> error + 't"
  Selector_Name :: string

text \<open>
  \<^verbatim>\<open>type Result struct { t table.Reader; err error }\<close>. The result table is read as the
  list of its records (the ids a \<^verbatim>\<open>table.RecordBuffer\<close> gives them are left out);
  \<open>None\<close> is the \<^verbatim>\<open>nil\<close> reader and the \<^verbatim>\<open>nil\<close> error.
\<close>

record Result =
  Result_t :: "Field list list option"
  Result_err :: "error option"

definition Result_error :: "error \<Rightarrow> Result" where
  "Result_error e = \<lparr>Result_t = None, Result_err = Some e\<rparr>"

text \<open>
  Modelled from the spec: \<^verbatim>\<open>field.NewBytes\<close> is not under src/; it builds the field of
  the given name holding the bytes, of the blob type.
\<close>

definition NewBytes :: "string \<Rightarrow> bytes \<Rightarrow> Field" where
  "NewBytes name v = \<lparr>Name = name, Type = Blob, Data = v\<rparr>"

text \<open>\<^verbatim>\<open>recordIDToTable\<close>: a record buffer into which one record of one field is inserted.\<close>

definition recordIDToTable :: "bytes \<Rightarrow> Field list list" where
  "recordIDToTable recordID = [] @ [[NewBytes ''recordID'' recordID]]"

subsection \<open>\<^verbatim>\<open>InsertStmt\<close>\<close>

text \<open>
  \<^verbatim>\<open>i.values == nil\<close>: the slice is only ever built by \<^verbatim>\<open>append\<close> in \<^verbatim>\<open>Values\<close>, so it
  is \<^verbatim>\<open>nil\<close> exactly when it is empty.
\<close>

text \<open>
  The field \<^verbatim>\<open>values\<close> is written \<open>values'\<close>, and the method \<^verbatim>\<open>Fields\<close> is written
  \<open>Fields_of\<close> (\<open>Fields\<close> is the field of \<^verbatim>\<open>record.Schema\<close>).
\<close>

record ('tx, 't) InsertStmt =
  tableSelector :: "('tx, 't) TableSelector option"
  fieldNames :: "string list"
  values' :: "'tx Expr list"

definition Insert :: "('tx, 't) InsertStmt" where
  "Insert = \<lparr>tableSelector = None, fieldNames = [], values' = []\<rparr>"

definition Into :: "('tx, 't) InsertStmt \<Rightarrow> ('tx, 't) TableSelector \<Rightarrow> ('tx, 't) InsertStmt" where
  "Into i sel = i\<lparr>tableSelector := Some sel\<rparr>"

definition Fields_of :: "('tx, 't) InsertStmt \<Rightarrow> string list \<Rightarrow> ('tx, 't) InsertStmt" where
  "Fields_of i names = i\<lparr>fieldNames := fieldNames i @ names\<rparr>"

definition Values :: "('tx, 't) InsertStmt \<Rightarrow> 'tx Expr list \<Rightarrow> ('tx, 't) InsertStmt" where
  "Values i vs = i\<lparr>values' := values' i @ vs\<rparr>"

text \<open>
  The last lines of the three \<^verbatim>\<open>run...\<close> functions:
  \<^verbatim>\<open>recordID, err := t.Insert(&fb); if err != nil { return Result{err: err} };
  return Result{t: recordIDToTable(recordID)}\<close>.
\<close>

definition Insert_and_return :: "'t Table_methods \<Rightarrow> 't \<Rightarrow> FieldBuffer \<Rightarrow> Result ret \<times> 't" where
  "Insert_and_return ops t fb =
     (case Table_Insert ops t fb of
        (Inl err, t') \<Rightarrow> (Returns (Result_error err), t')
      | (Inr recordID, t') \<Rightarrow>
          (Returns \<lparr>Result_t = Some (recordIDToTable recordID), Result_err = None\<rparr>, t'))"

text \<open>
  \<^verbatim>\<open>runWithoutSelectedFields\<close>: the loop \<^verbatim>\<open>for idx, sf := range schema.Fields\<close>, with the
  field buffer built so far.
\<close>

fun runWithoutSelectedFields_loop ::
  "'tx \<Rightarrow> 'tx Expr list \<Rightarrow> Field list \<Rightarrow> nat \<Rightarrow> FieldBuffer \<Rightarrow> (error + FieldBuffer) ret" where
  "runWithoutSelectedFields_loop tx vals [] idx fb = Returns (Inr fb)"
| "runWithoutSelectedFields_loop tx vals (sf # sfs) idx fb =
     (if idx \<ge> length vals then Panics
      else (case (vals ! idx) \<lparr>Tx = tx, Record = None\<rparr> of
              Inl err \<Rightarrow> Returns (Inl err)
            | Inr sc \<Rightarrow>
                if ScalarType sc \<noteq> Type sf
                then Returns (Inl (Errorf_cannot_assign (ScalarType sc) (Type sf)))
                else runWithoutSelectedFields_loop tx vals sfs (idx + 1)
                       (fb @ [\<lparr>Name = Name sf, Type = Type sf, Data = ScalarData sc\<rparr>])))"

definition runWithoutSelectedFields ::
  "'t Table_methods \<Rightarrow> ('tx, 't) InsertStmt \<Rightarrow> 'tx \<Rightarrow> 't \<Rightarrow> Result ret \<times> 't" where
  "runWithoutSelectedFields ops i tx t =
     (case Table_Schema ops t of
        None \<Rightarrow>
          (Returns (Result_error (ErrorNew ''fields must be selected for schemaless tables'')), t)
      | Some schema \<Rightarrow>
          if length (Fields schema) \<noteq> length (values' i) then
            (case tableSelector i of
               None \<Rightarrow> (Panics, t)
             | Some sel \<Rightarrow>
                 (Returns (Result_error (Errorf_table_fields (Selector_Name sel)
                    (length (Fields schema)) (length (values' i)))), t))
          else
            (case runWithoutSelectedFields_loop tx (values' i) (Fields schema) 0 [] of
               Panics \<Rightarrow> (Panics, t)
             | Returns (Inl err) \<Rightarrow> (Returns (Result_error err), t)
             | Returns (Inr fb) \<Rightarrow> Insert_and_return ops t fb))"

text \<open>\<^verbatim>\<open>runSchemalessWithSelectedFields\<close>: the loop \<^verbatim>\<open>for idx, name := range i.fieldNames\<close>.\<close>

fun runSchemalessWithSelectedFields_loop ::
  "'tx \<Rightarrow> 'tx Expr list \<Rightarrow> string list \<Rightarrow> nat \<Rightarrow> FieldBuffer \<Rightarrow> (error + FieldBuffer) ret" where
  "runSchemalessWithSelectedFields_loop tx vals [] idx fb = Returns (Inr fb)"
| "runSchemalessWithSelectedFields_loop tx vals (name # names) idx fb =
     (if idx \<ge> length vals then Panics
      else (case (vals ! idx) \<lparr>Tx = tx, Record = None\<rparr> of
              Inl err \<Rightarrow> Returns (Inl err)
            | Inr sc \<Rightarrow>
                runSchemalessWithSelectedFields_loop tx vals names (idx + 1)
                  (fb @ [\<lparr>Name = name, Type = ScalarType sc, Data = ScalarData sc\<rparr>])))"

definition runSchemalessWithSelectedFields ::
  "'t Table_methods \<Rightarrow> ('tx, 't) InsertStmt \<Rightarrow> 'tx \<Rightarrow> 't \<Rightarrow> Result ret \<times> 't" where
  "runSchemalessWithSelectedFields ops i tx t =
     (if length (fieldNames i) \<noteq> length (values' i) then
        (Returns (Result_error
           (Errorf_values_for_fields (length (values' i)) (length (fieldNames i)))), t)
      else
        (case runSchemalessWithSelectedFields_loop tx (values' i) (fieldNames i) 0 [] of
           Panics \<Rightarrow> (Panics, t)
         | Returns (Inl err) \<Rightarrow> (Returns (Result_error err), t)
         | Returns (Inr fb) \<Rightarrow> Insert_and_return ops t fb))"

text \<open>
  \<^verbatim>\<open>runSchemafulWithSelectedFields\<close>. The inner loop
  \<^verbatim>\<open>for idx, name := range i.fieldNames\<close> runs for one schema field \<open>sf\<close> and carries the
  field buffer and \<^verbatim>\<open>found\<close>; the outer loop \<^verbatim>\<open>for _, sf := range schema.Fields\<close> adds
  the zero value when the inner loop found nothing. \<^verbatim>\<open>field.ZeroValue\<close> is not under src/
  and is a parameter.
\<close>

fun runSchemafulWithSelectedFields_inner ::
  "'tx \<Rightarrow> 'tx Expr list \<Rightarrow> Field \<Rightarrow> string list \<Rightarrow> nat \<Rightarrow> FieldBuffer \<Rightarrow> bool
     \<Rightarrow> (error + FieldBuffer \<times> bool) ret" where
  "runSchemafulWithSelectedFields_inner tx vals sf [] idx fb found = Returns (Inr (fb, found))"
| "runSchemafulWithSelectedFields_inner tx vals sf (name # names) idx fb found =
     (if name \<noteq> Name sf
      then runSchemafulWithSelectedFields_inner tx vals sf names (idx + 1) fb found
      else if idx \<ge> length vals then Panics
      else (case (vals ! idx) \<lparr>Tx = tx, Record = None\<rparr> of
              Inl err \<Rightarrow> Returns (Inl err)
            | Inr sc \<Rightarrow>
                if ScalarType sc \<noteq> Type sf
                then Returns (Inl (Errorf_cannot_assign (ScalarType sc) (Type sf)))
                else runSchemafulWithSelectedFields_inner tx vals sf names (idx + 1)
                       (fb @ [\<lparr>Name = name, Type = ScalarType sc, Data = ScalarData sc\<rparr>]) True))"

fun runSchemafulWithSelectedFields_outer ::
  "(FieldType \<Rightarrow> Field) \<Rightarrow> 'tx \<Rightarrow> 'tx Expr list \<Rightarrow> string list \<Rightarrow> Field list \<Rightarrow> FieldBuffer
     \<Rightarrow> (error + FieldBuffer) ret" where
  "runSchemafulWithSelectedFields_outer ZeroValue tx vals names [] fb = Returns (Inr fb)"
| "runSchemafulWithSelectedFields_outer ZeroValue tx vals names (sf # sfs) fb =
     (case runSchemafulWithSelectedFields_inner tx vals sf names 0 fb False of
        Panics \<Rightarrow> Panics
      | Returns (Inl err) \<Rightarrow> Returns (Inl err)
      | Returns (Inr (fb', found)) \<Rightarrow>
          runSchemafulWithSelectedFields_outer ZeroValue tx vals names sfs
            (if \<not> found then fb' @ [(ZeroValue (Type sf))\<lparr>Name := Name sf\<rparr>] else fb'))"

definition runSchemafulWithSelectedFields ::
  "'t Table_methods \<Rightarrow> (FieldType \<Rightarrow> Field) \<Rightarrow> ('tx, 't) InsertStmt \<Rightarrow> 'tx \<Rightarrow> 't \<Rightarrow> Schema
     \<Rightarrow> Result ret \<times> 't" where
  "runSchemafulWithSelectedFields ops ZeroValue i tx t schema =
     (case runSchemafulWithSelectedFields_outer ZeroValue tx (values' i) (fieldNames i)
             (Fields schema) [] of
        Panics \<Rightarrow> (Panics, t)
      | Returns (Inl err) \<Rightarrow> (Returns (Result_error err), t)
      | Returns (Inr fb) \<Rightarrow> Insert_and_return ops t fb)"

text \<open>
  \<^verbatim>\<open>InsertStmt.Run\<close>. Beside the result it returns the selected table after the
  statement, \<open>None\<close> when no table was selected.
\<close>

definition InsertStmt_Run ::
  "'t Table_methods \<Rightarrow> (FieldType \<Rightarrow> Field) \<Rightarrow> ('tx, 't) InsertStmt \<Rightarrow> 'tx
     \<Rightarrow> Result ret \<times> 't option" where
  "InsertStmt_Run ops ZeroValue i tx =
     (case tableSelector i of
        None \<Rightarrow> (Returns (Result_error (ErrorNew ''missing table selector'')), None)
      | Some sel \<Rightarrow>
          if values' i = [] then (Returns (Result_error (ErrorNew ''empty values'')), None)
          else (case SelectTable sel tx of
                  Inl err \<Rightarrow> (Returns (Result_error err), None)
                | Inr t \<Rightarrow>
                    (case (if length (fieldNames i) = 0 then runWithoutSelectedFields ops i tx t
                           else (case Table_Schema ops t of
                                   None \<Rightarrow> runSchemalessWithSelectedFields ops i tx t
                                 | Some schema \<Rightarrow>
                                     runSchemafulWithSelectedFields ops ZeroValue i tx t schema))
                     of (res, t') \<Rightarrow> (res, Some t'))))"

subsection \<open>A table in memory\<close>

text \<open>
  Modelled from the spec: a table to run the statements on, since \<^verbatim>\<open>genji.Table\<close> is not
  under src/. "Every stored record has an associated record id: [...] a monotonically
  increasing 64-bit engine-assigned identifier encoded big-endian"; a record is "mutated
  only by UPDATE"; replacing a record that is not there is the engine's \<^verbatim>\<open>NotFound\<close>.
  This table has no primary key and no index.
\<close>

record MemTable =
  mem_schema :: "Schema option"
  mem_rows :: "(bytes \<times> Field list) list"
  mem_seq :: nat

definition be64 :: "nat \<Rightarrow> bytes" where
  "be64 n = map (\<lambda>k. of_nat (n div 256 ^ k mod 256)) [7, 6, 5, 4, 3, 2, 1, 0]"

definition mem_Insert :: "MemTable \<Rightarrow> FieldBuffer \<Rightarrow> (error + bytes) \<times> MemTable" where
  "mem_Insert t fb =
     (let n = mem_seq t + 1
      in (Inr (be64 n), t\<lparr>mem_rows := mem_rows t @ [(be64 n, fb)], mem_seq := n\<rparr>))"

definition mem_Replace :: "MemTable \<Rightarrow> bytes \<Rightarrow> FieldBuffer \<Rightarrow> error option \<times> MemTable" where
  "mem_Replace t recordID fb =
     (if recordID \<in> fst ` set (mem_rows t)
      then (None, t\<lparr>mem_rows := map (\<lambda>(k, r). if k = recordID then (k, fb) else (k, r)) (mem_rows t)\<rparr>)
      else (Some (Foreign ''not found''), t))"

definition memTable :: "MemTable Table_methods" where
  "memTable = \<lparr>Table_Schema = mem_schema, Table_Insert = mem_Insert, Table_Replace = mem_Replace\<rparr>"

text \<open>
  Modelled from the spec: the same table with a primary key, the field named \<open>pk\<close>.
  A stored record's id is "the encoded primary-key value"; "Primary-key values are unique
  within their table and equal to their record id", and an insert that would repeat one
  fails (the spec's \<^verbatim>\<open>ConstraintViolation\<close>), leaving the table as it was.
\<close>

definition pk_Insert :: "string \<Rightarrow> MemTable \<Rightarrow> FieldBuffer \<Rightarrow> (error + bytes) \<times> MemTable" where
  "pk_Insert pk t fb =
     (case find (\<lambda>f. Name f = pk) fb of
        None \<Rightarrow> (Inl (Foreign ''missing primary key''), t)
      | Some f \<Rightarrow>
          if Data f \<in> fst ` set (mem_rows t) then (Inl (Foreign ''duplicate record''), t)
          else (Inr (Data f), t\<lparr>mem_rows := mem_rows t @ [(Data f, fb)]\<rparr>))"

definition pkTable :: "string \<Rightarrow> MemTable Table_methods" where
  "pkTable pk =
     \<lparr>Table_Schema = mem_schema, Table_Insert = pk_Insert pk, Table_Replace = mem_Replace\<rparr>"

text \<open>Examples of the parameters: an expression that is a constant, and a zero value.\<close>

definition constExpr :: "FieldType \<Rightarrow> bytes \<Rightarrow> 'tx Expr" where
  "constExpr ty v ctx = Inr \<lparr>ScalarType = ty, ScalarData = v\<rparr>"

definition zeroOf :: "FieldType \<Rightarrow> Field" where
  "zeroOf ty = \<lparr>Name = [], Type = ty, Data = []\<rparr>"

text \<open>A schemaful table of two fields, a schemaless table, both empty, and their selector.\<close>

definition ex_schema :: Schema where
  "ex_schema = \<lparr>Fields = [\<lparr>Name = ''a'', Type = Int64, Data = []\<rparr>,
                           \<lparr>Name = ''b'', Type = Text, Data = []\<rparr>]\<rparr>"

definition ex_schemaful :: MemTable where
  "ex_schemaful = \<lparr>mem_schema = Some ex_schema, mem_rows = [], mem_seq = 0\<rparr>"

definition ex_schemaless :: MemTable where
  "ex_schemaless = \<lparr>mem_schema = None, mem_rows = [], mem_seq = 0\<rparr>"

definition ex_selector :: "MemTable \<Rightarrow> (unit, MemTable) TableSelector" where
  "ex_selector t = \<lparr>SelectTable = (\<lambda>tx. Inr t), Selector_Name = ''t''\<rparr>"

text \<open>
  The schemaful table with the primary key \<open>a\<close>, holding one record whose key is the
  byte 1.
\<close>

definition ex_pk :: MemTable where
  "ex_pk = \<lparr>mem_schema = Some ex_schema,
            mem_rows = [([1], [\<lparr>Name = ''a'', Type = Int64, Data = [1]\<rparr>,
                               \<lparr>Name = ''b'', Type = Text, Data = [120]\<rparr>])],
            mem_seq = 0\<rparr>"

lemmas insert_eval_defs =
  InsertStmt_Run_def runWithoutSelectedFields_def runSchemalessWithSelectedFields_def
  runSchemafulWithSelectedFields_def Insert_and_return_def Result_error_def recordIDToTable_def
  NewBytes_def memTable_def mem_Insert_def be64_def constExpr_def zeroOf_def
  ex_schema_def ex_schemaful_def ex_schemaless_def ex_selector_def
  pkTable_def pk_Insert_def ex_pk_def

subsection \<open>What the INSERT functions return\<close>

text \<open>A run succeeds when it returns a result and the result's error is \<^verbatim>\<open>nil\<close>.\<close>

definition succeeds :: "Result ret \<times> 'a \<Rightarrow> bool" where
  "succeeds x = (case fst x of Returns res \<Rightarrow> Result_err res = None | Panics \<Rightarrow> False)"

text \<open>The table accepts a record when its \<^verbatim>\<open>Insert\<close> returns no error.\<close>

definition accepts :: "'t Table_methods \<Rightarrow> 't \<Rightarrow> FieldBuffer \<Rightarrow> bool" where
  "accepts ops t fb = (case fst (Table_Insert ops t fb) of Inl err \<Rightarrow> False | Inr recordID \<Rightarrow> True)"

text \<open>
  An expression has type \<open>ty\<close> when, evaluated as INSERT evaluates it (no current record),
  it yields a value and the value's type is \<open>ty\<close>.
\<close>

definition typed :: "'tx \<Rightarrow> 'tx Expr \<Rightarrow> FieldType \<Rightarrow> bool" where
  "typed tx v ty =
     (case v \<lparr>Tx = tx, Record = None\<rparr> of Inl err \<Rightarrow> False | Inr sc \<Rightarrow> ScalarType sc = ty)"

text \<open>The bytes of the value of an expression that evaluates.\<close>

definition dataOf :: "'tx \<Rightarrow> 'tx Expr \<Rightarrow> bytes" where
  "dataOf tx v = (case v \<lparr>Tx = tx, Record = None\<rparr> of Inl err \<Rightarrow> [] | Inr sc \<Rightarrow> ScalarData sc)"

text \<open>
  The record of an INSERT without field list: the values in schema order, each under the
  name and type of the schema field at its position.
\<close>

definition schemaOrderRecord :: "'tx \<Rightarrow> Field list \<Rightarrow> 'tx Expr list \<Rightarrow> FieldBuffer" where
  "schemaOrderRecord tx sfs vs =
     map (\<lambda>(sf, v). \<lparr>Name = Name sf, Type = Type sf, Data = dataOf tx v\<rparr>) (zip sfs vs)"


lemma succeeds_Insert_and_return:
  "succeeds (Insert_and_return ops t fb) \<longleftrightarrow> accepts ops t fb"
  by (auto simp: succeeds_def accepts_def Insert_and_return_def Result_error_def
      split: prod.splits sum.splits)

lemma not_succeeds_error: "\<not> succeeds (Returns (Result_error err), t)"
  by (simp add: succeeds_def Result_error_def)

lemma runWithoutSelectedFields_loop_ok:
  "length sfs = length vs \<Longrightarrow> list_all2 (\<lambda>sf v. typed tx v (Type sf)) sfs vs \<Longrightarrow>
     runWithoutSelectedFields_loop tx (pre @ vs) sfs (length pre) fb
       = Returns (Inr (fb @ schemaOrderRecord tx sfs vs))"
proof (induction sfs arbitrary: pre vs fb)
  case Nil
  then show ?case by (simp add: schemaOrderRecord_def)
next
  case (Cons sf sfs)
  then obtain v vs' where vs: "vs = v # vs'" by (cases vs) auto
  with Cons.prems have t: "typed tx v (Type sf)" and r: "list_all2 (\<lambda>sf v. typed tx v (Type sf)) sfs vs'"
    and l: "length sfs = length vs'" by simp_all
  from t obtain sc where ev: "v \<lparr>Tx = tx, Record = None\<rparr> = Inr sc" and ty: "ScalarType sc = Type sf"
    by (auto simp: typed_def split: sum.splits)
  from Cons.IH [OF l r, of "pre @ [v]" "fb @ [\<lparr>Name = Name sf, Type = Type sf, Data = ScalarData sc\<rparr>]"]
  have "runWithoutSelectedFields_loop tx (pre @ v # vs') sfs (Suc (length pre))
          (fb @ [\<lparr>Name = Name sf, Type = Type sf, Data = ScalarData sc\<rparr>])
        = Returns (Inr (fb @ \<lparr>Name = Name sf, Type = Type sf, Data = ScalarData sc\<rparr>
             # schemaOrderRecord tx sfs vs'))"
    by simp
  with ev ty vs show ?case
    by (simp add: schemaOrderRecord_def dataOf_def)
qed

lemma runWithoutSelectedFields_loop_bad:
  "length sfs = length vs \<Longrightarrow> \<not> list_all2 (\<lambda>sf v. typed tx v (Type sf)) sfs vs \<Longrightarrow>
     \<exists>err. runWithoutSelectedFields_loop tx (pre @ vs) sfs (length pre) fb = Returns (Inl err)"
proof (induction sfs arbitrary: pre vs fb)
  case Nil
  then show ?case by simp
next
  case (Cons sf sfs)
  then obtain v vs' where vs: "vs = v # vs'" by (cases vs) auto
  with Cons.prems have l: "length sfs = length vs'" by simp
  show ?case
  proof (cases "typed tx v (Type sf)")
    case True
    with Cons.prems vs have r: "\<not> list_all2 (\<lambda>sf v. typed tx v (Type sf)) sfs vs'" by simp
    from True obtain sc where ev: "v \<lparr>Tx = tx, Record = None\<rparr> = Inr sc"
      and ty: "ScalarType sc = Type sf"
      by (auto simp: typed_def split: sum.splits)
    from Cons.IH [OF l r, of "pre @ [v]" "fb @ [\<lparr>Name = Name sf, Type = Type sf, Data = ScalarData sc\<rparr>]"]
    obtain err where "runWithoutSelectedFields_loop tx (pre @ v # vs') sfs (Suc (length pre))
          (fb @ [\<lparr>Name = Name sf, Type = Type sf, Data = ScalarData sc\<rparr>]) = Returns (Inl err)"
      by auto
    with ev ty vs show ?thesis by simp
  next
    case False
    with vs show ?thesis
      by (auto simp: typed_def split: sum.splits)
  qed
qed

text \<open>The last lines of the three run functions, by what the table's \<^verbatim>\<open>Insert\<close> returns.\<close>

lemma Insert_and_return_explicit:
  "(\<forall>recordID t'. Table_Insert ops t fb = (Inr recordID, t') \<longrightarrow>
       Insert_and_return ops t fb
         = (Returns \<lparr>Result_t = Some [[\<lparr>Name = ''recordID'', Type = Blob, Data = recordID\<rparr>]],
                     Result_err = None\<rparr>, t'))
   \<and> (\<forall>err t'. Table_Insert ops t fb = (Inl err, t') \<longrightarrow>
       Insert_and_return ops t fb = (Returns \<lparr>Result_t = None, Result_err = Some err\<rparr>, t'))
   \<and> ((\<exists>res t'. Insert_and_return ops t fb = (Returns res, t') \<and> Result_err res = None)
       \<longleftrightarrow> (\<exists>recordID t'. Table_Insert ops t fb = (Inr recordID, t')))"
proof -
  obtain x t' where ins: "Table_Insert ops t fb = (x, t')" by (cases "Table_Insert ops t fb")
  show ?thesis
  proof (cases x)
    case (Inl err)
    with ins show ?thesis
      by (simp add: Insert_and_return_def Result_error_def)
  next
    case (Inr recordID)
    with ins show ?thesis
      by (simp add: Insert_and_return_def recordIDToTable_def NewBytes_def)
  qed
qed

text \<open>
  \<^verbatim>\<open>runWithoutSelectedFields\<close> on its two kinds of table, with the last lines of the
  function kept together.
\<close>

lemma runWithoutSelectedFields_checks:
  "(Table_Schema ops t = None \<longrightarrow>
      runWithoutSelectedFields ops i tx t
        = (Returns (Result_error (ErrorNew ''fields must be selected for schemaless tables'')), t)
      \<and> \<not> succeeds (runWithoutSelectedFields ops i tx t))
   \<and> (\<forall>schema sel. Table_Schema ops t = Some schema \<and> tableSelector i = Some sel \<longrightarrow>
        (if length (values' i) = length (Fields schema)
            \<and> (\<forall>idx < length (values' i). typed tx (values' i ! idx) (Type (Fields schema ! idx)))
         then runWithoutSelectedFields ops i tx t
                = Insert_and_return ops t (schemaOrderRecord tx (Fields schema) (values' i))
              \<and> (succeeds (runWithoutSelectedFields ops i tx t)
                   \<longleftrightarrow> accepts ops t (schemaOrderRecord tx (Fields schema) (values' i)))
         else (\<exists>err. runWithoutSelectedFields ops i tx t = (Returns (Result_error err), t))
              \<and> \<not> succeeds (runWithoutSelectedFields ops i tx t)))"
proof (rule conjI)
  show "Table_Schema ops t = None \<longrightarrow>
      runWithoutSelectedFields ops i tx t
        = (Returns (Result_error (ErrorNew ''fields must be selected for schemaless tables'')), t)
      \<and> \<not> succeeds (runWithoutSelectedFields ops i tx t)"
    by (simp add: runWithoutSelectedFields_def not_succeeds_error)
next
  show "\<forall>schema sel. Table_Schema ops t = Some schema \<and> tableSelector i = Some sel \<longrightarrow>
        (if length (values' i) = length (Fields schema)
            \<and> (\<forall>idx < length (values' i). typed tx (values' i ! idx) (Type (Fields schema ! idx)))
         then runWithoutSelectedFields ops i tx t
                = Insert_and_return ops t (schemaOrderRecord tx (Fields schema) (values' i))
              \<and> (succeeds (runWithoutSelectedFields ops i tx t)
                   \<longleftrightarrow> accepts ops t (schemaOrderRecord tx (Fields schema) (values' i)))
         else (\<exists>err. runWithoutSelectedFields ops i tx t = (Returns (Result_error err), t))
              \<and> \<not> succeeds (runWithoutSelectedFields ops i tx t))"
  proof (intro allI impI)
  fix schema sel
  assume a: "Table_Schema ops t = Some schema \<and> tableSelector i = Some sel"
  let ?P = "\<lambda>sf v. typed tx v (Type sf)"
  let ?ok = "length (values' i) = length (Fields schema)
      \<and> (\<forall>idx < length (values' i). typed tx (values' i ! idx) (Type (Fields schema ! idx)))"
  have ok_iff: "?ok \<longleftrightarrow> length (Fields schema) = length (values' i)
      \<and> list_all2 ?P (Fields schema) (values' i)"
    by (auto simp: list_all2_conv_all_nth)
  show "if ?ok
        then runWithoutSelectedFields ops i tx t
                = Insert_and_return ops t (schemaOrderRecord tx (Fields schema) (values' i))
              \<and> (succeeds (runWithoutSelectedFields ops i tx t)
                   \<longleftrightarrow> accepts ops t (schemaOrderRecord tx (Fields schema) (values' i)))
        else (\<exists>err. runWithoutSelectedFields ops i tx t = (Returns (Result_error err), t))
              \<and> \<not> succeeds (runWithoutSelectedFields ops i tx t)"
  proof (cases ?ok)
    case True
    with ok_iff have l: "length (Fields schema) = length (values' i)"
      and m: "list_all2 ?P (Fields schema) (values' i)" by simp_all
    from runWithoutSelectedFields_loop_ok [OF l m, of "[]" "[]"]
    have "runWithoutSelectedFields_loop tx (values' i) (Fields schema) 0 []
        = Returns (Inr (schemaOrderRecord tx (Fields schema) (values' i)))" by simp
    with a l have "runWithoutSelectedFields ops i tx t
        = Insert_and_return ops t (schemaOrderRecord tx (Fields schema) (values' i))"
      by (simp add: runWithoutSelectedFields_def)
    with True show ?thesis by (simp add: succeeds_Insert_and_return)
  next
    case False
    have "\<exists>err. runWithoutSelectedFields ops i tx t = (Returns (Result_error err), t)"
    proof (cases "length (Fields schema) = length (values' i)")
      case True
      with False ok_iff have "\<not> list_all2 ?P (Fields schema) (values' i)" by blast
      from runWithoutSelectedFields_loop_bad [OF True this, of "[]" "[]"]
      obtain err where "runWithoutSelectedFields_loop tx (values' i) (Fields schema) 0 []
          = Returns (Inl err)" by auto
      with a True show ?thesis by (auto simp: runWithoutSelectedFields_def)
    next
      case False
      with a show ?thesis by (auto simp: runWithoutSelectedFields_def)
    qed
    with False show ?thesis by (auto simp: not_succeeds_error)
  qed
qed
qed

text \<open>
  Claim C6, as stated: on a schemaful table the statement succeeds exactly when the numbers
  are equal and the types match. \<^verbatim>\<open>runWithoutSelectedFields\<close> ends with the table's
  \<^verbatim>\<open>Insert\<close> and returns its error. On the table with primary key \<open>a\<close> that holds a
  record of key 1, \<^verbatim>\<open>INSERT INTO t VALUES (1, 'y')\<close> has two values for the two schema
  fields, of the schema's types; the table refuses the repeated key and the run returns its
  error, the table unchanged.
\<close>

theorem C6_table_refuses_counterexample:
  "length (values' \<lparr>tableSelector = Some (ex_selector ex_pk), fieldNames = [],
             values' = [constExpr Int64 [1], constExpr Text [121]]\<rparr>) = length (Fields ex_schema)
   \<and> typed () (constExpr Int64 [1]) (Type (Fields ex_schema ! 0))
   \<and> typed () (constExpr Text [121]) (Type (Fields ex_schema ! 1))
   \<and> Table_Schema (pkTable ''a'') ex_pk = Some ex_schema
   \<and> runWithoutSelectedFields (pkTable ''a'')
        \<lparr>tableSelector = Some (ex_selector ex_pk), fieldNames = [],
         values' = [constExpr Int64 [1], constExpr Text [121]]\<rparr> () ex_pk
      = (Returns \<lparr>Result_t = None, Result_err = Some (Foreign ''duplicate record'')\<rparr>, ex_pk)
   \<and> InsertStmt_Run (pkTable ''a'') zeroOf
        \<lparr>tableSelector = Some (ex_selector ex_pk), fieldNames = [],
         values' = [constExpr Int64 [1], constExpr Text [121]]\<rparr> ()
      = (Returns \<lparr>Result_t = None, Result_err = Some (Foreign ''duplicate record'')\<rparr>, Some ex_pk)"
  by (simp add: insert_eval_defs typed_def)

text \<open>
  Claim C6, as amended. An INSERT without field list into a schemaless table returns the
  error "fields must be selected for schemaless tables" and leaves the table as it was.
  Into a schemaful table, when the number of values equals the number of schema fields and
  each value evaluates to the type of the schema field at its position, the values, in
  schema order, are handed to the table's \<^verbatim>\<open>Insert\<close>: the run returns the record id and
  the table after the insert when the table accepts the record, and the table's error when
  it does not; in every other case the run returns an error and the table is as it was. So
  the run succeeds exactly when the numbers are equal, the types match and the table's
  \<^verbatim>\<open>Insert\<close> accepts the record.
\<close>

theorem C6_insert_without_field_list:
  "(Table_Schema ops t = None \<longrightarrow>
      runWithoutSelectedFields ops i tx t
        = (Returns \<lparr>Result_t = None,
             Result_err = Some (ErrorNew ''fields must be selected for schemaless tables'')\<rparr>, t))
   \<and> (\<forall>schema sel. Table_Schema ops t = Some schema \<and> tableSelector i = Some sel \<longrightarrow>
        (if length (values' i) = length (Fields schema)
            \<and> (\<forall>idx < length (values' i). typed tx (values' i ! idx) (Type (Fields schema ! idx)))
         then (\<forall>recordID t'.
                 Table_Insert ops t (schemaOrderRecord tx (Fields schema) (values' i))
                   = (Inr recordID, t') \<longrightarrow>
                 runWithoutSelectedFields ops i tx t
                   = (Returns \<lparr>Result_t = Some [[\<lparr>Name = ''recordID'', Type = Blob,
                                                    Data = recordID\<rparr>]],
                               Result_err = None\<rparr>, t'))
              \<and> (\<forall>err t'.
                 Table_Insert ops t (schemaOrderRecord tx (Fields schema) (values' i))
                   = (Inl err, t') \<longrightarrow>
                 runWithoutSelectedFields ops i tx t
                   = (Returns \<lparr>Result_t = None, Result_err = Some err\<rparr>, t'))
         else (\<exists>err. runWithoutSelectedFields ops i tx t
                 = (Returns \<lparr>Result_t = None, Result_err = Some err\<rparr>, t)))
        \<and> ((\<exists>res t'. runWithoutSelectedFields ops i tx t = (Returns res, t')
                \<and> Result_err res = None)
            \<longleftrightarrow> length (values' i) = length (Fields schema)
                \<and> (\<forall>idx < length (values' i).
                      typed tx (values' i ! idx) (Type (Fields schema ! idx)))
                \<and> (\<exists>recordID t'.
                      Table_Insert ops t (schemaOrderRecord tx (Fields schema) (values' i))
                        = (Inr recordID, t'))))"
proof (rule conjI)
  show "Table_Schema ops t = None \<longrightarrow>
      runWithoutSelectedFields ops i tx t
        = (Returns \<lparr>Result_t = None,
             Result_err = Some (ErrorNew ''fields must be selected for schemaless tables'')\<rparr>, t)"
    using runWithoutSelectedFields_checks [of ops t i tx]
    by (simp add: Result_error_def)
next
  show "\<forall>schema sel. Table_Schema ops t = Some schema \<and> tableSelector i = Some sel \<longrightarrow>
        (if length (values' i) = length (Fields schema)
            \<and> (\<forall>idx < length (values' i). typed tx (values' i ! idx) (Type (Fields schema ! idx)))
         then (\<forall>recordID t'.
                 Table_Insert ops t (schemaOrderRecord tx (Fields schema) (values' i))
                   = (Inr recordID, t') \<longrightarrow>
                 runWithoutSelectedFields ops i tx t
                   = (Returns \<lparr>Result_t = Some [[\<lparr>Name = ''recordID'', Type = Blob,
                                                    Data = recordID\<rparr>]],
                               Result_err = None\<rparr>, t'))
              \<and> (\<forall>err t'.
                 Table_Insert ops t (schemaOrderRecord tx (Fields schema) (values' i))
                   = (Inl err, t') \<longrightarrow>
                 runWithoutSelectedFields ops i tx t
                   = (Returns \<lparr>Result_t = None, Result_err = Some err\<rparr>, t'))
         else (\<exists>err. runWithoutSelectedFields ops i tx t
                 = (Returns \<lparr>Result_t = None, Result_err = Some err\<rparr>, t)))
        \<and> ((\<exists>res t'. runWithoutSelectedFields ops i tx t = (Returns res, t')
                \<and> Result_err res = None)
            \<longleftrightarrow> length (values' i) = length (Fields schema)
                \<and> (\<forall>idx < length (values' i).
                      typed tx (values' i ! idx) (Type (Fields schema ! idx)))
                \<and> (\<exists>recordID t'.
                      Table_Insert ops t (schemaOrderRecord tx (Fields schema) (values' i))
                        = (Inr recordID, t')))"
  proof (intro allI impI)
    fix schema sel
    assume a: "Table_Schema ops t = Some schema \<and> tableSelector i = Some sel"
    let ?ok = "length (values' i) = length (Fields schema)
      \<and> (\<forall>idx < length (values' i). typed tx (values' i ! idx) (Type (Fields schema ! idx)))"
    let ?fb = "schemaOrderRecord tx (Fields schema) (values' i)"
    let ?run = "runWithoutSelectedFields ops i tx t"
    note chk = runWithoutSelectedFields_checks [of ops t i tx, THEN conjunct2, rule_format, OF a]
    note ex = Insert_and_return_explicit [of ops t ?fb]
    show "(if ?ok
         then (\<forall>recordID t'. Table_Insert ops t ?fb = (Inr recordID, t') \<longrightarrow>
                 ?run = (Returns \<lparr>Result_t = Some [[\<lparr>Name = ''recordID'', Type = Blob,
                                                    Data = recordID\<rparr>]],
                               Result_err = None\<rparr>, t'))
              \<and> (\<forall>err t'. Table_Insert ops t ?fb = (Inl err, t') \<longrightarrow>
                 ?run = (Returns \<lparr>Result_t = None, Result_err = Some err\<rparr>, t'))
         else (\<exists>err. ?run = (Returns \<lparr>Result_t = None, Result_err = Some err\<rparr>, t)))
        \<and> ((\<exists>res t'. ?run = (Returns res, t') \<and> Result_err res = None)
            \<longleftrightarrow> length (values' i) = length (Fields schema)
                \<and> (\<forall>idx < length (values' i).
                      typed tx (values' i ! idx) (Type (Fields schema ! idx)))
                \<and> (\<exists>recordID t'. Table_Insert ops t ?fb = (Inr recordID, t')))"
    proof (cases ?ok)
      case True
      from chk have run: "?run = Insert_and_return ops t ?fb"
        unfolding if_P [OF True] by blast
      from ex show ?thesis
        unfolding if_P [OF True] run using True by blast
    next
      case False
      from chk obtain err where run: "?run = (Returns (Result_error err), t)"
        unfolding if_not_P [OF False] by blast
      then have r: "?run = (Returns \<lparr>Result_t = None, Result_err = Some err\<rparr>, t)"
        by (simp add: Result_error_def)
      have "\<not> (\<exists>res t'. ?run = (Returns res, t') \<and> Result_err res = None)"
        unfolding r by simp
      with r False show ?thesis
        unfolding if_not_P [OF False] by blast
    qed
  qed
qed

theorem C6_insert_without_field_list_witness:
  "runWithoutSelectedFields memTable
       \<lparr>tableSelector = Some (ex_selector ex_schemaful), fieldNames = [],
        values' = [constExpr Int64 [1], constExpr Text [120]]\<rparr> () ex_schemaful
     = (Returns \<lparr>Result_t = Some [[\<lparr>Name = ''recordID'', Type = Blob,
                                      Data = [0, 0, 0, 0, 0, 0, 0, 1]\<rparr>]],
                 Result_err = None\<rparr>,
        ex_schemaful\<lparr>mem_rows := [([0, 0, 0, 0, 0, 0, 0, 1],
                                    [\<lparr>Name = ''a'', Type = Int64, Data = [1]\<rparr>,
                                     \<lparr>Name = ''b'', Type = Text, Data = [120]\<rparr>])],
                      mem_seq := 1\<rparr>)
   \<and> (\<exists>err. runWithoutSelectedFields memTable
       \<lparr>tableSelector = Some (ex_selector ex_schemaful), fieldNames = [],
        values' = [constExpr Text [120], constExpr Int64 [1]]\<rparr> () ex_schemaful
     = (Returns \<lparr>Result_t = None, Result_err = Some err\<rparr>, ex_schemaful))
   \<and> runWithoutSelectedFields memTable
       \<lparr>tableSelector = Some (ex_selector ex_schemaless), fieldNames = [],
        values' = [constExpr Int64 [1], constExpr Text [120]]\<rparr> () ex_schemaless
     = (Returns \<lparr>Result_t = None,
          Result_err = Some (ErrorNew ''fields must be selected for schemaless tables'')\<rparr>,
        ex_schemaless)"
proof -
  let ?good = "\<lparr>tableSelector = Some (ex_selector ex_schemaful), fieldNames = [],
        values' = [constExpr Int64 [1], constExpr Text [120] :: unit Expr]\<rparr>"
  let ?bad = "\<lparr>tableSelector = Some (ex_selector ex_schemaful), fieldNames = [],
        values' = [constExpr Text [120], constExpr Int64 [1] :: unit Expr]\<rparr>"
  let ?less = "\<lparr>tableSelector = Some (ex_selector ex_schemaless), fieldNames = [],
        values' = [constExpr Int64 [1], constExpr Text [120] :: unit Expr]\<rparr>"
  let ?after = "ex_schemaful\<lparr>mem_rows := [([0, 0, 0, 0, 0, 0, 0, 1],
                                    [\<lparr>Name = ''a'', Type = Int64, Data = [1]\<rparr>,
                                     \<lparr>Name = ''b'', Type = Text, Data = [120]\<rparr>])],
                      mem_seq := 1\<rparr>"
  have s: "Table_Schema memTable ex_schemaful = Some ex_schema"
    and n: "Table_Schema memTable ex_schemaless = None"
    by (simp_all add: memTable_def ex_schemaful_def ex_schemaless_def)
  have ok: "length (values' ?good) = length (Fields ex_schema)
      \<and> (\<forall>idx < length (values' ?good). typed () (values' ?good ! idx) (Type (Fields ex_schema ! idx)))"
    by (simp add: ex_schema_def typed_def constExpr_def less_Suc_eq)
  have bad: "\<not> (length (values' ?bad) = length (Fields ex_schema)
      \<and> (\<forall>idx < length (values' ?bad). typed () (values' ?bad ! idx) (Type (Fields ex_schema ! idx))))"
    by (auto simp: ex_schema_def typed_def constExpr_def)
  have ins: "Table_Insert memTable ex_schemaful
        (schemaOrderRecord () (Fields ex_schema) (values' ?good))
      = (Inr [0, 0, 0, 0, 0, 0, 0, 1], ?after)"
    by (simp add: memTable_def mem_Insert_def be64_def schemaOrderRecord_def dataOf_def
        constExpr_def ex_schema_def ex_schemaful_def)
  have pg: "Table_Schema memTable ex_schemaful = Some ex_schema
      \<and> tableSelector ?good = Some (ex_selector ex_schemaful)"
    and pb: "Table_Schema memTable ex_schemaful = Some ex_schema
      \<and> tableSelector ?bad = Some (ex_selector ex_schemaful)"
    using s by simp_all
  note good = C6_insert_without_field_list [of memTable ex_schemaful ?good "()", THEN conjunct2,
      rule_format, OF pg, THEN conjunct1, unfolded if_P [OF ok]]
  note wrong = C6_insert_without_field_list [of memTable ex_schemaful ?bad "()", THEN conjunct2,
      rule_format, OF pb, THEN conjunct1, unfolded if_not_P [OF bad]]
  note less = C6_insert_without_field_list [of memTable ex_schemaless ?less "()", THEN conjunct1,
      rule_format, OF n]
  from good ins have 1: "runWithoutSelectedFields memTable ?good () ex_schemaful
     = (Returns \<lparr>Result_t = Some [[\<lparr>Name = ''recordID'', Type = Blob,
                                      Data = [0, 0, 0, 0, 0, 0, 0, 1]\<rparr>]],
                 Result_err = None\<rparr>, ?after)"
    by blast
  from 1 wrong less show ?thesis by blast
qed










subsection \<open>INSERT with a field list into a schemaful table\<close>

text \<open>
  The fields that the values supplied for the schema field \<open>sf\<close> give: one for each
  position of the field list that names \<open>sf\<close>, in the order of the list
  (\<open>enumerate 0 names\<close> pairs each name with its position).
\<close>

definition suppliedFields :: "'tx \<Rightarrow> string list \<Rightarrow> 'tx Expr list \<Rightarrow> Field \<Rightarrow> FieldBuffer" where
  "suppliedFields tx names vals sf =
     map (\<lambda>(idx, name). \<lparr>Name = name, Type = Type sf, Data = dataOf tx (vals ! idx)\<rparr>)
       (filter (\<lambda>(idx, name). name = Name sf) (enumerate 0 names))"

text \<open>The zero value of the type of \<open>sf\<close>, under the name of \<open>sf\<close>.\<close>

definition zeroField :: "(FieldType \<Rightarrow> Field) \<Rightarrow> Field \<Rightarrow> Field" where
  "zeroField ZeroValue sf = (ZeroValue (Type sf))\<lparr>Name := Name sf\<rparr>"

text \<open>
  The record of an INSERT with a field list into a schemaful table: schema field by schema
  field, the supplied fields when the field list names it, its zero value when not.
\<close>

definition selectedFieldsRecord ::
  "(FieldType \<Rightarrow> Field) \<Rightarrow> 'tx \<Rightarrow> string list \<Rightarrow> 'tx Expr list \<Rightarrow> Field list \<Rightarrow> FieldBuffer" where
  "selectedFieldsRecord ZeroValue tx names vals sfs =
     concat (map (\<lambda>sf. if Name sf \<in> set names then suppliedFields tx names vals sf
                        else [zeroField ZeroValue sf]) sfs)"

text \<open>
  The supplied fields type-check: every value at a position of the field list that names
  a schema field exists and evaluates to the type of that schema field.
\<close>

definition suppliedTypeCheck :: "'tx \<Rightarrow> string list \<Rightarrow> 'tx Expr list \<Rightarrow> Field list \<Rightarrow> bool" where
  "suppliedTypeCheck tx names vals sfs \<longleftrightarrow>
     (\<forall>sf \<in> set sfs. \<forall>idx < length names.
        names ! idx = Name sf \<longrightarrow> idx < length vals \<and> typed tx (vals ! idx) (Type sf))"

lemma runSchemafulWithSelectedFields_inner_ok:
  assumes "\<forall>(j, name) \<in> set (enumerate idx ns). name = Name sf \<longrightarrow>
             j < length vals \<and> typed tx (vals ! j) (Type sf)"
  shows "runSchemafulWithSelectedFields_inner tx vals sf ns idx fb found
     = Returns (Inr (fb @ map (\<lambda>(idx, name). \<lparr>Name = name, Type = Type sf, Data = dataOf tx (vals ! idx)\<rparr>)
                          (filter (\<lambda>(idx, name). name = Name sf) (enumerate idx ns)),
                     found \<or> Name sf \<in> set ns))"
  using assms
proof (induction ns arbitrary: idx fb found)
  case Nil
  show ?case by simp
next
  case (Cons n ns)
  from Cons.prems have ih_prem: "\<forall>(j, name) \<in> set (enumerate (Suc idx) ns). name = Name sf \<longrightarrow>
      j < length vals \<and> typed tx (vals ! j) (Type sf)"
    by simp
  note ih = Cons.IH [OF ih_prem]
  show ?case
  proof (cases "n = Name sf")
    case False
    with ih [of fb found] show ?thesis by simp
  next
    case True
    with Cons.prems have lt: "idx < length vals" and ty: "typed tx (vals ! idx) (Type sf)"
      by simp_all
    from ty obtain sc where ev: "(vals ! idx) \<lparr>Tx = tx, Record = None\<rparr> = Inr sc"
      and st: "ScalarType sc = Type sf"
      by (auto simp: typed_def split: sum.splits)
    from ev have d: "dataOf tx (vals ! idx) = ScalarData sc" by (simp add: dataOf_def)
    from ih [of "fb @ [\<lparr>Name = n, Type = ScalarType sc, Data = ScalarData sc\<rparr>]" True]
      True lt ev st d show ?thesis
      by simp
  qed
qed

lemma runSchemafulWithSelectedFields_inner_all:
  assumes "\<forall>idx < length names. names ! idx = Name sf \<longrightarrow>
             idx < length vals \<and> typed tx (vals ! idx) (Type sf)"
  shows "runSchemafulWithSelectedFields_inner tx vals sf names 0 fb False
     = Returns (Inr (fb @ suppliedFields tx names vals sf, Name sf \<in> set names))"
proof -
  from assms have "\<forall>(j, name) \<in> set (enumerate 0 names). name = Name sf \<longrightarrow>
      j < length vals \<and> typed tx (vals ! j) (Type sf)"
    by (auto simp: in_set_enumerate_eq)
  from runSchemafulWithSelectedFields_inner_ok [OF this, of fb False] show ?thesis
    by (simp add: suppliedFields_def)
qed

lemma suppliedFields_empty: "Name sf \<notin> set names \<Longrightarrow> suppliedFields tx names vals sf = []"
proof -
  assume n: "Name sf \<notin> set names"
  have "\<And>a. a < length names \<Longrightarrow> names ! a \<noteq> Name sf"
    using n nth_mem by metis
  then show ?thesis
    by (auto simp: suppliedFields_def filter_empty_conv in_set_enumerate_eq)
qed

lemma runSchemafulWithSelectedFields_outer_ok:
  "suppliedTypeCheck tx names vals sfs \<Longrightarrow>
     runSchemafulWithSelectedFields_outer ZeroValue tx vals names sfs fb
       = Returns (Inr (fb @ selectedFieldsRecord ZeroValue tx names vals sfs))"
proof (induction sfs arbitrary: fb)
  case Nil
  show ?case by (simp add: selectedFieldsRecord_def)
next
  case (Cons sf sfs)
  from Cons.prems have here: "\<forall>idx < length names. names ! idx = Name sf \<longrightarrow>
      idx < length vals \<and> typed tx (vals ! idx) (Type sf)"
    and rest: "suppliedTypeCheck tx names vals sfs"
    by (simp_all add: suppliedTypeCheck_def)
  note inner = runSchemafulWithSelectedFields_inner_all [OF here, of fb]
  show ?case
  proof (cases "Name sf \<in> set names")
    case True
    with inner Cons.IH [OF rest, of "fb @ suppliedFields tx names vals sf"] show ?thesis
      by (simp add: selectedFieldsRecord_def)
  next
    case False
    with inner Cons.IH [OF rest, of "fb @ [(ZeroValue (Type sf))\<lparr>Name := Name sf\<rparr>]"]
    show ?thesis
      by (simp add: selectedFieldsRecord_def suppliedFields_empty zeroField_def)
  qed
qed

lemma Name_suppliedFields: "f \<in> set (suppliedFields tx names vals sf) \<Longrightarrow> Name f = Name sf"
  by (auto simp: suppliedFields_def)

lemma missing_fields_zero:
  "filter (\<lambda>f. Name f \<notin> set names) (selectedFieldsRecord ZeroValue tx names vals sfs)
     = map (zeroField ZeroValue) (filter (\<lambda>sf. Name sf \<notin> set names) sfs)"
proof (induction sfs)
  case Nil
  show ?case by (simp add: selectedFieldsRecord_def)
next
  case (Cons sf sfs)
  show ?case
  proof (cases "Name sf \<in> set names")
    case True
    then have "filter (\<lambda>f. Name f \<notin> set names) (suppliedFields tx names vals sf) = []"
      by (auto simp: filter_empty_conv dest: Name_suppliedFields)
    with True Cons.IH show ?thesis by (simp add: selectedFieldsRecord_def)
  next
    case False
    then have "Name (zeroField ZeroValue sf) \<notin> set names" by (simp add: zeroField_def)
    with False Cons.IH show ?thesis by (simp add: selectedFieldsRecord_def)
  qed
qed

lemma filter_eq_distinct: "distinct xs \<Longrightarrow> x \<in> set xs \<Longrightarrow> filter (\<lambda>y. y = x) xs = [x]"
  by (induction xs) (auto simp: filter_empty_conv)

lemma map_snd_filter_enumerate:
  "map snd (filter (\<lambda>(idx, name). P name) (enumerate n xs)) = filter P xs"
  by (induction xs arbitrary: n) simp_all

lemma Names_suppliedFields:
  "map Name (suppliedFields tx names vals sf) = filter (\<lambda>name. name = Name sf) names"
proof -
  have "map Name (suppliedFields tx names vals sf)
      = map snd (filter (\<lambda>(idx, name). name = Name sf) (enumerate 0 names))"
    by (simp add: suppliedFields_def case_prod_beta)
  then show ?thesis by (simp only: map_snd_filter_enumerate)
qed

lemma suppliedFields_distinct:
  "distinct names \<Longrightarrow> Name sf \<in> set names \<Longrightarrow>
     map Name (suppliedFields tx names vals sf) = [Name sf]"
  by (simp add: Names_suppliedFields filter_eq_distinct)

lemma schema_order_kept:
  "distinct names \<Longrightarrow>
     map Name (selectedFieldsRecord ZeroValue tx names vals sfs) = map Name sfs"
  by (induction sfs)
     (auto simp: selectedFieldsRecord_def suppliedFields_distinct zeroField_def)

text \<open>
  Claim C5, as stated: the insert succeeds provided all supplied fields type-check.
  \<^verbatim>\<open>runSchemafulWithSelectedFields\<close> ends with the table's \<^verbatim>\<open>Insert\<close> and returns its
  error. On the table with primary key \<open>a\<close> that holds a record of key 1,
  \<^verbatim>\<open>INSERT INTO t (a) VALUES (1)\<close> supplies one field, of the schema's type; the table
  refuses the repeated key and the run returns its error, the table unchanged.
\<close>

theorem C5_table_refuses_counterexample:
  "suppliedTypeCheck ()
      (fieldNames \<lparr>tableSelector = Some (ex_selector ex_pk), fieldNames = [''a''],
                   values' = [constExpr Int64 [1]]\<rparr>)
      (values' \<lparr>tableSelector = Some (ex_selector ex_pk), fieldNames = [''a''],
                values' = [constExpr Int64 [1]]\<rparr>)
      (Fields ex_schema)
   \<and> Table_Schema (pkTable ''a'') ex_pk = Some ex_schema
   \<and> runSchemafulWithSelectedFields (pkTable ''a'') zeroOf
        \<lparr>tableSelector = Some (ex_selector ex_pk), fieldNames = [''a''],
         values' = [constExpr Int64 [1]]\<rparr> () ex_pk ex_schema
      = (Returns \<lparr>Result_t = None, Result_err = Some (Foreign ''duplicate record'')\<rparr>, ex_pk)
   \<and> InsertStmt_Run (pkTable ''a'') zeroOf
        \<lparr>tableSelector = Some (ex_selector ex_pk), fieldNames = [''a''],
         values' = [constExpr Int64 [1]]\<rparr> ()
      = (Returns \<lparr>Result_t = None, Result_err = Some (Foreign ''duplicate record'')\<rparr>, Some ex_pk)"
  by (simp add: insert_eval_defs suppliedTypeCheck_def typed_def)

text \<open>
  Claim C5, as amended. For an INSERT with a field list into a schemaful table whose
  supplied fields type-check, \<^verbatim>\<open>runSchemafulWithSelectedFields\<close> hands to the table's
  \<^verbatim>\<open>Insert\<close> the record \<open>selectedFieldsRecord\<close>: the run returns the record id and the
  table after the insert of that record when the table accepts it, and the table's error
  when it does not, so the insert succeeds exactly when the table's \<^verbatim>\<open>Insert\<close> accepts
  the record. In that record the fields whose name is not in the field list are, in schema
  order, the schema fields that the list does not name, each with the zero value of its
  declared type under its own name; and when no name is repeated in the field list, the
  names of the record are the names of the schema, in the schema's order.
\<close>

theorem C5_missing_fields_zero_valued:
  assumes "suppliedTypeCheck tx (fieldNames i) (values' i) (Fields schema)"
  shows "(\<forall>recordID t'.
            Table_Insert ops t
                (selectedFieldsRecord ZeroValue tx (fieldNames i) (values' i) (Fields schema))
              = (Inr recordID, t') \<longrightarrow>
            runSchemafulWithSelectedFields ops ZeroValue i tx t schema
              = (Returns \<lparr>Result_t = Some [[\<lparr>Name = ''recordID'', Type = Blob,
                                               Data = recordID\<rparr>]],
                          Result_err = None\<rparr>, t'))
    \<and> (\<forall>err t'.
            Table_Insert ops t
                (selectedFieldsRecord ZeroValue tx (fieldNames i) (values' i) (Fields schema))
              = (Inl err, t') \<longrightarrow>
            runSchemafulWithSelectedFields ops ZeroValue i tx t schema
              = (Returns \<lparr>Result_t = None, Result_err = Some err\<rparr>, t'))
    \<and> ((\<exists>res t'. runSchemafulWithSelectedFields ops ZeroValue i tx t schema = (Returns res, t')
            \<and> Result_err res = None)
        \<longleftrightarrow> (\<exists>recordID t'.
              Table_Insert ops t
                  (selectedFieldsRecord ZeroValue tx (fieldNames i) (values' i) (Fields schema))
                = (Inr recordID, t')))
    \<and> filter (\<lambda>f. Name f \<notin> set (fieldNames i))
         (selectedFieldsRecord ZeroValue tx (fieldNames i) (values' i) (Fields schema))
       = map (\<lambda>sf. (ZeroValue (Type sf))\<lparr>Name := Name sf\<rparr>)
           (filter (\<lambda>sf. Name sf \<notin> set (fieldNames i)) (Fields schema))
    \<and> (distinct (fieldNames i) \<longrightarrow>
         map Name (selectedFieldsRecord ZeroValue tx (fieldNames i) (values' i) (Fields schema))
           = map Name (Fields schema))"
proof -
  let ?fb = "selectedFieldsRecord ZeroValue tx (fieldNames i) (values' i) (Fields schema)"
  from runSchemafulWithSelectedFields_outer_ok [OF assms, of ZeroValue "[]"]
  have run: "runSchemafulWithSelectedFields ops ZeroValue i tx t schema
      = Insert_and_return ops t ?fb"
    by (simp add: runSchemafulWithSelectedFields_def)
  note ex = Insert_and_return_explicit [of ops t ?fb, folded run]
  have zero: "filter (\<lambda>f. Name f \<notin> set (fieldNames i)) ?fb
      = map (\<lambda>sf. (ZeroValue (Type sf))\<lparr>Name := Name sf\<rparr>)
          (filter (\<lambda>sf. Name sf \<notin> set (fieldNames i)) (Fields schema))"
    using missing_fields_zero [of "fieldNames i" ZeroValue tx "values' i" "Fields schema"]
    by (simp add: zeroField_def [abs_def])
  have order: "distinct (fieldNames i) \<longrightarrow> map Name ?fb = map Name (Fields schema)"
    by (simp add: schema_order_kept)
  from ex zero order show ?thesis by blast
qed

theorem C5_missing_fields_zero_valued_witness:
  "runSchemafulWithSelectedFields memTable zeroOf
       \<lparr>tableSelector = Some (ex_selector ex_schemaful), fieldNames = [''b''],
        values' = [constExpr Text [120]]\<rparr> () ex_schemaful ex_schema
     = (Returns \<lparr>Result_t = Some [[\<lparr>Name = ''recordID'', Type = Blob,
                                      Data = [0, 0, 0, 0, 0, 0, 0, 1]\<rparr>]],
                 Result_err = None\<rparr>,
        ex_schemaful\<lparr>mem_rows := [([0, 0, 0, 0, 0, 0, 0, 1],
                                    [\<lparr>Name = ''a'', Type = Int64, Data = []\<rparr>,
                                     \<lparr>Name = ''b'', Type = Text, Data = [120]\<rparr>])],
                      mem_seq := 1\<rparr>)
   \<and> zeroOf Int64 = \<lparr>Name = [], Type = Int64, Data = []\<rparr>"
proof -
  let ?i = "\<lparr>tableSelector = Some (ex_selector ex_schemaful), fieldNames = [''b''],
        values' = [constExpr Text [120] :: unit Expr]\<rparr>"
  let ?after = "ex_schemaful\<lparr>mem_rows := [([0, 0, 0, 0, 0, 0, 0, 1],
                                    [\<lparr>Name = ''a'', Type = Int64, Data = []\<rparr>,
                                     \<lparr>Name = ''b'', Type = Text, Data = [120]\<rparr>])],
                      mem_seq := 1\<rparr>"
  have h: "suppliedTypeCheck () (fieldNames ?i) (values' ?i) (Fields ex_schema)"
    by (simp add: suppliedTypeCheck_def ex_schema_def typed_def constExpr_def)
  have r: "selectedFieldsRecord zeroOf () (fieldNames ?i) (values' ?i) (Fields ex_schema)
      = [\<lparr>Name = ''a'', Type = Int64, Data = []\<rparr>, \<lparr>Name = ''b'', Type = Text, Data = [120]\<rparr>]"
    by (simp add: selectedFieldsRecord_def suppliedFields_def zeroField_def zeroOf_def
        ex_schema_def dataOf_def constExpr_def enumerate_eq_zip)
  have ins: "Table_Insert memTable ex_schemaful
        [\<lparr>Name = ''a'', Type = Int64, Data = []\<rparr>, \<lparr>Name = ''b'', Type = Text, Data = [120]\<rparr>]
      = (Inr [0, 0, 0, 0, 0, 0, 0, 1], ?after)"
    by (simp add: memTable_def mem_Insert_def be64_def ex_schemaful_def)
  note c = C5_missing_fields_zero_valued [OF h, of memTable ex_schemaful zeroOf, unfolded r,
      THEN conjunct1]
  have z: "zeroOf Int64 = \<lparr>Name = [], Type = Int64, Data = []\<rparr>" by (simp add: zeroOf_def)
  from c ins z show ?thesis by blast
qed

subsection \<open>The number of values and the number of field names\<close>

text \<open>
  \<^verbatim>\<open>runSchemalessWithSelectedFields\<close> compares the two numbers first: when they differ it
  returns an error and the table is as it was.
\<close>

lemma runSchemalessWithSelectedFields_count_mismatch:
  "length (fieldNames i) \<noteq> length (values' i) \<Longrightarrow>
     runSchemalessWithSelectedFields ops i tx t
       = (Returns (Result_error
            (Errorf_values_for_fields (length (values' i)) (length (fieldNames i)))), t)"
  by (simp add: runSchemalessWithSelectedFields_def)

text \<open>
  Claim C4. The claim is that an INSERT with a field list whose number of values differs from
  the number of field names fails with an error and inserts nothing, on schemaless and
  schemaful tables alike. \<^verbatim>\<open>runSchemafulWithSelectedFields\<close> makes no such comparison. With
  one name and two values on a schemaful table, \<^verbatim>\<open>Run\<close> returns a record id and the table
  holds a new record, the second value never read; the same statement on a schemaless table
  is refused with "2 values for 1 fields". With two names and one value on the schemaful
  table, \<^verbatim>\<open>i.values[idx]\<close> is out of range and \<^verbatim>\<open>Run\<close> panics.
\<close>

theorem C4_schemaful_count_mismatch_inserts:
  "InsertStmt_Run memTable zeroOf
     \<lparr>tableSelector = Some (ex_selector ex_schemaful), fieldNames = [''a''],
      values' = [constExpr Int64 [1], constExpr Int64 [2]]\<rparr> ()
   = (Returns \<lparr>Result_t = Some [[\<lparr>Name = ''recordID'', Type = Blob,
                                    Data = [0, 0, 0, 0, 0, 0, 0, 1]\<rparr>]],
               Result_err = None\<rparr>,
      Some (ex_schemaful\<lparr>mem_rows := [([0, 0, 0, 0, 0, 0, 0, 1],
                                       [\<lparr>Name = ''a'', Type = Int64, Data = [1]\<rparr>,
                                        \<lparr>Name = ''b'', Type = Text, Data = []\<rparr>])],
                         mem_seq := 1\<rparr>))
   \<and> InsertStmt_Run memTable zeroOf
       \<lparr>tableSelector = Some (ex_selector ex_schemaless), fieldNames = [''a''],
        values' = [constExpr Int64 [1], constExpr Int64 [2]]\<rparr> ()
     = (Returns \<lparr>Result_t = None, Result_err = Some (Errorf_values_for_fields 2 1)\<rparr>,
        Some ex_schemaless)
   \<and> InsertStmt_Run memTable zeroOf
       \<lparr>tableSelector = Some (ex_selector ex_schemaful), fieldNames = [''a'', ''b''],
        values' = [constExpr Int64 [1]]\<rparr> ()
     = (Panics, Some ex_schemaful)"
  by (simp add: insert_eval_defs)

section \<open>The UPDATE statement (package query)\<close>

text \<open>
  Modelled from the spec: the methods of \<^verbatim>\<open>record.FieldBuffer\<close> and \<^verbatim>\<open>record.Schema\<close>
  are not under src/. "A field buffer is an ordered, in-memory, mutable sequence of fields
  keyed by name; operations: add, replace(name, field) -> error when not present,
  get(name) -> optional field, scan(record) -> error". A lookup by name finds the first
  field of that name, and \<^verbatim>\<open>Replace\<close> replaces that field; scanning a record into an
  empty buffer copies the record's fields.
\<close>

definition FieldBuffer_ScanRecord :: "Field list \<Rightarrow> error option \<times> FieldBuffer" where
  "FieldBuffer_ScanRecord r = (None, [] @ r)"

definition FieldBuffer_Field :: "FieldBuffer \<Rightarrow> string \<Rightarrow> error + Field" where
  "FieldBuffer_Field fb name =
     (case find (\<lambda>f. Name f = name) fb of
        None \<Rightarrow> Inl (Foreign ''field not found'')
      | Some f \<Rightarrow> Inr f)"

fun replaceFirst :: "string \<Rightarrow> Field \<Rightarrow> FieldBuffer \<Rightarrow> FieldBuffer" where
  "replaceFirst name f [] = []"
| "replaceFirst name f (g # gs) = (if Name g = name then f # gs else g # replaceFirst name f gs)"

definition FieldBuffer_Replace :: "FieldBuffer \<Rightarrow> string \<Rightarrow> Field \<Rightarrow> error option \<times> FieldBuffer" where
  "FieldBuffer_Replace fb name f =
     (if name \<in> Name ` set fb then (None, replaceFirst name f fb)
      else (Some (Foreign ''field not found''), fb))"

definition Schema_Field :: "Schema \<Rightarrow> string \<Rightarrow> error + Field" where
  "Schema_Field schema name = FieldBuffer_Field (Fields schema) name"

subsection \<open>\<^verbatim>\<open>UpdateStmt\<close>\<close>

text \<open>
  \<^verbatim>\<open>pairs map[string]Expr\<close> is a map from field names to expressions. \<^verbatim>\<open>Set\<close> stores
  the expression under the field name: a second \<^verbatim>\<open>Set\<close> for the same name replaces the
  first, and the order of the calls is not recorded.
\<close>

record ('tx, 't) UpdateStmt =
  update_tableSelector :: "('tx, 't) TableSelector option"
  pairs :: "string \<rightharpoonup> 'tx Expr"
  whereExpr :: "'tx Expr option"



definition Where :: "('tx, 't) UpdateStmt \<Rightarrow> 'tx Expr \<Rightarrow> ('tx, 't) UpdateStmt" where
  "Where u e = u\<lparr>whereExpr := Some e\<rparr>"


text \<open>
  The body of the loop over the pairs, for the entries still to visit, with the field
  buffer and the table as they are. \<open>schema\<close> is what \<^verbatim>\<open>t.Schema()\<close> returned before the
  iteration (\<open>None\<close> when the table is not schemaful), \<open>r\<close> the record being updated.
  The result is the error and the table after the last write.
\<close>

fun UpdateStmt_Run_pairs ::
  "'t Table_methods \<Rightarrow> 'tx \<Rightarrow> Schema option \<Rightarrow> bytes \<Rightarrow> Field list \<Rightarrow> (string \<times> 'tx Expr) list
     \<Rightarrow> FieldBuffer \<Rightarrow> 't \<Rightarrow> error option \<times> 't" where
  "UpdateStmt_Run_pairs ops tx schema recordID r [] fb t = (None, t)"
| "UpdateStmt_Run_pairs ops tx schema recordID r ((fname, e) # rest) fb t =
     (case FieldBuffer_Field fb fname of
        Inl err \<Rightarrow> (Some err, t)
      | Inr f \<Rightarrow>
          (case e \<lparr>Tx = tx, Record = Some r\<rparr> of
             Inl err \<Rightarrow> (Some err, t)
           | Inr s \<Rightarrow>
               (case (case schema of
                        None \<Rightarrow> None
                      | Some sch \<Rightarrow>
                          (case Schema_Field sch fname of
                             Inl err \<Rightarrow> Some err
                           | Inr sf \<Rightarrow>
                               if Type f \<noteq> Type sf
                               then Some (Errorf_cannot_assign (Type f) (Type sf))
                               else None)) of
                  Some err \<Rightarrow> (Some err, t)
                | None \<Rightarrow>
                    (case FieldBuffer_Replace fb (Name f)
                            (f\<lparr>Type := ScalarType s, Data := ScalarData s\<rparr>) of
                       (Some err, fb') \<Rightarrow> (Some err, t)
                     | (None, fb') \<Rightarrow>
                         (case Table_Replace ops t recordID fb' of
                            (Some err, t') \<Rightarrow> (Some err, t')
                          | (None, t') \<Rightarrow>
                              UpdateStmt_Run_pairs ops tx schema recordID r rest fb' t')))))"

text \<open>
  The function literal that \<^verbatim>\<open>UpdateStmt.Run\<close> passes to \<^verbatim>\<open>ForEach\<close>, called once for
  each record of the reader: \<open>es\<close> is the order in which this call visits the pairs.
\<close>

definition UpdateStmt_Run_record ::
  "'t Table_methods \<Rightarrow> 'tx \<Rightarrow> Schema option \<Rightarrow> (string \<times> 'tx Expr) list \<Rightarrow> bytes \<Rightarrow> Field list
     \<Rightarrow> 't \<Rightarrow> error option \<times> 't" where
  "UpdateStmt_Run_record ops tx schema es recordID r t =
     (case FieldBuffer_ScanRecord r of
        (Some err, fb) \<Rightarrow> (Some err, t)
      | (None, fb) \<Rightarrow> UpdateStmt_Run_pairs ops tx schema recordID r es fb t)"

text \<open>
  A schemaful table holding one record that conforms to the schema, and a schemaless table
  holding one record of one field.
\<close>

definition ex_one_record :: MemTable where
  "ex_one_record =
     \<lparr>mem_schema = Some ex_schema,
      mem_rows = [([0, 0, 0, 0, 0, 0, 0, 1],
                   [\<lparr>Name = ''a'', Type = Int64, Data = [5]\<rparr>, \<lparr>Name = ''b'', Type = Text, Data = [120]\<rparr>])],
      mem_seq = 1\<rparr>"

definition ex_schemaless_one :: MemTable where
  "ex_schemaless_one =
     \<lparr>mem_schema = None,
      mem_rows = [([0, 0, 0, 0, 0, 0, 0, 1], [\<lparr>Name = ''a'', Type = Int64, Data = [0]\<rparr>])],
      mem_seq = 1\<rparr>"

lemmas update_eval_defs =
  UpdateStmt_Run_pairs.simps UpdateStmt_Run_record_def FieldBuffer_ScanRecord_def FieldBuffer_Field_def
  FieldBuffer_Replace_def Schema_Field_def memTable_def mem_Replace_def constExpr_def
  ex_schema_def ex_one_record_def ex_schemaless_one_def

subsection \<open>What the loop over the pairs computes\<close>









subsection \<open>The loop over the pairs on the table in memory\<close>








declare UpdateStmt_Run_pairs.simps [simp del]





text \<open>
  Claim C3. The claim is that on a schemaful table an UPDATE whose SET expression yields a
  value of a type other than the field's declared type fails with a type error and does not
  write the value. The check in \<^verbatim>\<open>UpdateStmt.Run\<close> compares \<^verbatim>\<open>f.Type\<close>, the type of
  the field as stored, with the schema's type, and not \<^verbatim>\<open>s.Type\<close>, the type of the new
  value. On a record that conforms to the schema \<open>[a: Int64, b: Text]\<close> and that the
  WHERE expression of the statement accepts (\<^verbatim>\<open>UPDATE t SET a = 'y' WHERE b = 'x'\<close>;
  \<^verbatim>\<open>Run\<close> evaluates the WHERE expression and must be given one), assigning a text
  value to \<open>a\<close> returns no error and writes the text value; after that, assigning an
  \<open>Int64\<close> value to \<open>a\<close> is refused with "cannot assign value of type Text into field
  of type Int64".
\<close>

theorem C3_update_checks_stored_type:
  "UpdateStmt_Run_record memTable () (Some ex_schema)
       [(''a'', constExpr Text [121])] [0, 0, 0, 0, 0, 0, 0, 1]
       [\<lparr>Name = ''a'', Type = Int64, Data = [5]\<rparr>, \<lparr>Name = ''b'', Type = Text, Data = [120]\<rparr>]
       ex_one_record
     = (None, ex_one_record\<lparr>mem_rows := [([0, 0, 0, 0, 0, 0, 0, 1],
          [\<lparr>Name = ''a'', Type = Text, Data = [121]\<rparr>, \<lparr>Name = ''b'', Type = Text, Data = [120]\<rparr>])]\<rparr>)
   \<and> UpdateStmt_Run_record memTable () (Some ex_schema)
       [(''a'', constExpr Int64 [7])] [0, 0, 0, 0, 0, 0, 0, 1]
       [\<lparr>Name = ''a'', Type = Text, Data = [121]\<rparr>, \<lparr>Name = ''b'', Type = Text, Data = [120]\<rparr>]
       (ex_one_record\<lparr>mem_rows := [([0, 0, 0, 0, 0, 0, 0, 1],
          [\<lparr>Name = ''a'', Type = Text, Data = [121]\<rparr>, \<lparr>Name = ''b'', Type = Text, Data = [120]\<rparr>])]\<rparr>)
     = (Some (Errorf_cannot_assign Text Int64),
        ex_one_record\<lparr>mem_rows := [([0, 0, 0, 0, 0, 0, 0, 1],
          [\<lparr>Name = ''a'', Type = Text, Data = [121]\<rparr>, \<lparr>Name = ''b'', Type = Text, Data = [120]\<rparr>])]\<rparr>)"
  by (simp add: update_eval_defs)

end
